theory Spec2Isabelle
  imports Main "HOL-Library.Sublist"
begin

section \<open>Python strings\<close>

text \<open>
  A Python \<open>str\<close> is a sequence of Unicode code points: a list of integers.
  \<open>str\<close> gives the text of an ASCII literal. Lengths, slices, \<open>in\<close>, \<open>startswith\<close>,
  \<open>split\<close> and \<open>replace\<close> work on code points and are the list operations below.
\<close>

type_synonym pystr = "int list"

definition str :: "string \<Rightarrow> pystr" where
  "str s = map of_char s"

text \<open>
  Two things depend on the Unicode database of the interpreter: what \<open>str.lower\<close>
  returns for a text that holds a code point outside ASCII, and which code points outside
  ASCII are alphanumeric (for \<open>\w\<close>). They are taken as they are, as two functions. On
  ASCII text both are fixed, and written out below.
\<close>

record unicode_db =
  unicode_lower :: "pystr \<Rightarrow> pystr"
  unicode_alnum :: "int \<Rightarrow> bool"

definition ascii :: "pystr \<Rightarrow> bool" where
  "ascii s = list_all (\<lambda>c. 0 \<le> c \<and> c < 128) s"

definition lower_char :: "int \<Rightarrow> int" where
  "lower_char c = (if 65 \<le> c \<and> c \<le> 90 then c + 32 else c)"

text \<open>\<open>s.lower()\<close>\<close>

definition lower :: "unicode_db \<Rightarrow> pystr \<Rightarrow> pystr" where
  "lower U s = (if ascii s then map lower_char s else unicode_lower U s)"

text \<open>\<open>needle in hay\<close>: the needle occurs as a contiguous run of the haystack.\<close>

fun contains :: "pystr \<Rightarrow> pystr \<Rightarrow> bool" where
  "contains needle [] = (needle = [])"
| "contains needle (c # cs) = (prefix needle (c # cs) \<or> contains needle cs)"

text \<open>\<open>any(word in text for word in words)\<close>\<close>

definition any_in :: "pystr list \<Rightarrow> pystr \<Rightarrow> bool" where
  "any_in ws text = list_ex (\<lambda>w. contains w text) ws"

text \<open>
  White space as \<open>str.strip\<close>, \<open>str.split()\<close> and \<open>\s\<close> see it: the 29 code points
  for which \<open>str.isspace\<close> holds. They are the ASCII controls \<open>0x09\<close> to \<open>0x0D\<close> and
  \<open>0x1C\<close> to \<open>0x1F\<close>, the space, NEL \<open>0x85\<close>, the no-break space \<open>0xA0\<close>, the
  Ogham space mark, the spaces \<open>0x2000\<close> to \<open>0x200A\<close>, the line and paragraph
  separators, the narrow no-break space, the medium mathematical space and the ideographic
  space.
\<close>

definition newline :: int where
  "newline = 0x0A"

definition is_space :: "int \<Rightarrow> bool" where
  "is_space c \<longleftrightarrow>
     c \<in> set [0x09, 0x0A, 0x0B, 0x0C, 0x0D, 0x1C, 0x1D, 0x1E, 0x1F, 0x20, 0x85, 0xA0,
                0x1680, 0x2000, 0x2001, 0x2002, 0x2003, 0x2004, 0x2005, 0x2006, 0x2007,
                0x2008, 0x2009, 0x200A, 0x2028, 0x2029, 0x202F, 0x205F, 0x3000]"

text \<open>
  The class \<open>\w\<close>: an alphanumeric code point or the underscore. In ASCII these are
  the letters, the digits and the underscore.
\<close>

definition is_word :: "unicode_db \<Rightarrow> int \<Rightarrow> bool" where
  "is_word U c \<longleftrightarrow>
     (if 0 \<le> c \<and> c < 128
      then c \<in> set (str ''0123456789ABCDEFGHIJKLMNOPQRSTUVWXYZ_abcdefghijklmnopqrstuvwxyz'')
      else unicode_alnum U c)"

definition strip :: "pystr \<Rightarrow> pystr" where
  "strip s = rev (dropWhile is_space (rev (dropWhile is_space s)))"

text \<open>\<open>s.split()\<close>: the maximal runs of code points that are not white space.\<close>

fun split_ws_acc :: "pystr \<Rightarrow> pystr \<Rightarrow> pystr list" where
  "split_ws_acc cur [] = (if cur = [] then [] else [rev cur])"
| "split_ws_acc cur (c # cs) =
     (if is_space c then (if cur = [] then split_ws_acc [] cs else rev cur # split_ws_acc [] cs)
      else split_ws_acc (c # cur) cs)"

definition split_ws :: "pystr \<Rightarrow> pystr list" where
  "split_ws s = split_ws_acc [] s"

text \<open>
  \<open>s.split(sep)\<close> for a non-empty separator: the pieces between the occurrences of
  \<open>sep\<close>, found from the left without overlap. (Python raises \<open>ValueError\<close> on an empty
  separator; no call of the agent passes one, and the model returns the text unsplit.)
\<close>

function split_acc :: "pystr \<Rightarrow> pystr \<Rightarrow> pystr \<Rightarrow> pystr list" where
  "split_acc sep cur s =
     (if s = [] then [rev cur]
      else if sep \<noteq> [] \<and> prefix sep s then rev cur # split_acc sep [] (drop (length sep) s)
      else split_acc sep (hd s # cur) (tl s))"
  by pat_completeness auto
termination
  by (relation "measure (\<lambda>(sep, cur, s). length s)") auto

definition split_sep :: "pystr \<Rightarrow> pystr \<Rightarrow> pystr list" where
  "split_sep sep s = split_acc sep [] s"

text \<open>\<open>s.replace(old, new)\<close>, as \<open>new.join(s.split(old))\<close>.\<close>

fun join :: "pystr \<Rightarrow> pystr list \<Rightarrow> pystr" where
  "join sep [] = []"
| "join sep [x] = x"
| "join sep (x # y # ys) = x @ sep @ join sep (y # ys)"

definition replace :: "pystr \<Rightarrow> pystr \<Rightarrow> pystr \<Rightarrow> pystr" where
  "replace old new s = join new (split_sep old s)"

section \<open>Regular expressions\<close>

text \<open>
  The patterns of the classifier use literals, the class \<open>\s\<close>, \<open>.\<close> (any code point
  but a line feed), \<open>*\<close> on a class, \<open>?\<close>, alternation, and the anchors \<open>^\<close> (at the
  head of a pattern only) and \<open>$\<close> (at the end of the text or before a line feed that
  ends it). \<open>rems r s\<close> lists what is left of \<open>s\<close> after each way \<open>r\<close> can match at its
  start; \<open>re_search\<close> is \<open>re.search(p, s) is not None\<close>.
\<close>

datatype cls = Space | Dot

fun in_class :: "cls \<Rightarrow> int \<Rightarrow> bool" where
  "in_class Space c = is_space c"
| "in_class Dot c = (c \<noteq> newline)"

datatype rx = Lit pystr | One cls | Many cls | Opt rx | Alt rx rx | Cat rx rx | Eol

datatype pattern = Pat bool rx

fun many_rems :: "cls \<Rightarrow> pystr \<Rightarrow> pystr list" where
  "many_rems c [] = [[]]"
| "many_rems c (x # xs) = (x # xs) # (if in_class c x then many_rems c xs else [])"

fun rems :: "rx \<Rightarrow> pystr \<Rightarrow> pystr list" where
  "rems (Lit l) s = (if prefix l s then [drop (length l) s] else [])"
| "rems (One c) s = (case s of [] \<Rightarrow> [] | x # xs \<Rightarrow> if in_class c x then [xs] else [])"
| "rems (Many c) s = many_rems c s"
| "rems (Opt r) s = rems r s @ [s]"
| "rems (Alt a b) s = rems a s @ rems b s"
| "rems (Cat a b) s = concat (map (rems b) (rems a s))"
| "rems Eol s = (if s = [] \<or> s = [newline] then [s] else [])"

fun search_from :: "rx \<Rightarrow> pystr \<Rightarrow> bool" where
  "search_from r [] = (rems r [] \<noteq> [])"
| "search_from r (c # cs) = (rems r (c # cs) \<noteq> [] \<or> search_from r cs)"

fun re_search :: "pattern \<Rightarrow> pystr \<Rightarrow> bool" where
  "re_search (Pat anchored r) s = (if anchored then rems r s \<noteq> [] else search_from r s)"

fun cat_all :: "rx list \<Rightarrow> rx" where
  "cat_all [] = Lit []"
| "cat_all [r] = r"
| "cat_all (r # rs) = Cat r (cat_all rs)"

fun alts :: "pystr list \<Rightarrow> rx" where
  "alts [] = Lit []"
| "alts [l] = Lit l"
| "alts (l # ls) = Alt (Lit l) (alts ls)"

text \<open>
  \<open>re.search(r'(\w+)\.(\w+)', s)\<close> and its two groups: the leftmost run of word
  characters that is followed by a full stop and a word character, and the run after the
  full stop. (The full stop is no word character, so a start inside a run cannot succeed
  where the run's own start fails, and no shorter first group can be followed by the full
  stop.)
\<close>

definition full_stop :: int where
  "full_stop = 0x2E"

fun dotted_ref :: "unicode_db \<Rightarrow> pystr \<Rightarrow> (pystr \<times> pystr) option" where
  "dotted_ref U [] = None"
| "dotted_ref U (c # cs) =
     (let w1 = takeWhile (is_word U) (c # cs); r = dropWhile (is_word U) (c # cs) in
      if w1 \<noteq> [] \<and> (case r of d # e # _ \<Rightarrow> d = full_stop \<and> is_word U e | _ \<Rightarrow> False)
      then Some (w1, takeWhile (is_word U) (tl r))
      else dotted_ref U cs)"

section \<open>Target layer\<close>

text \<open>\<open>TransformAgent._determine_target_layer\<close>\<close>

definition determine_target_layer :: "unicode_db \<Rightarrow> pystr \<Rightarrow> pystr \<Rightarrow> pystr" where
  "determine_target_layer U user_request source_schema =
     (let request_lower = lower U user_request in
      if contains (str ''gold'') request_lower then str ''gold''
      else if contains (str ''silver'') request_lower then str ''silver''
      else if any_in [str ''aggregate'', str ''summary'', str ''report'', str ''metrics''] request_lower then str ''gold''
      else if source_schema = str ''bronze'' then str ''silver''
      else if source_schema = str ''silver'' then str ''gold''
      else str ''silver'')"

section \<open>Data model\<close>

text \<open>
  Exceptions are values. \<open>ServiceError m\<close> is an exception raised inside the Databricks
  connector or the Anthropic client, with \<open>str(e) = m\<close>; \<open>ParseError r\<close> is the
  \<open>ValueError\<close> that \<open>_parse_json_response\<close> raises, carrying the first 500 characters
  of the reply; the others are raised by the interpreter. Every handler of the agent is
  \<open>except Exception\<close> or a bare \<open>except\<close>, so the class of an error never selects a
  branch.
\<close>

datatype error =
    ServiceError pystr
  | ParseError pystr
  | KeyError pystr
  | TypeError
  | ValueError
  | IndexError
  | AttributeError

text \<open>
  What \<open>json.loads\<close> returns. A \<open>dict\<close> is an association list looked up with
  \<open>map_of\<close>; \<open>JNull\<close> is \<open>None\<close>; a float is a mantissa and a binary exponent (only
  whether it is zero is ever read).
\<close>

datatype json =
    JNull
  | JBool bool
  | JInt int
  | JFloat int int
  | JStr pystr
  | JList "json list"
  | JObj "(pystr \<times> json) list"

text \<open>A value in a row of a query result.\<close>

datatype cell = CInt int | CText pystr | CNull

datatype agent_state = IDLE | AWAITING_CONFIRMATION | EXECUTING

datatype user_intent = QUESTION | TRANSFORM | COMMAND | UNCLEAR

record table_column =
  column_name :: pystr
  data_type :: pystr
  nullable :: bool
  comment :: "pystr option"

record table_schema =
  catalog :: pystr
  schema :: pystr
  table :: pystr
  columns :: "table_column list"
  row_count :: int

record query_result =
  result_columns :: "pystr list"
  rows :: "cell list list"

text \<open>
  \<open>TransformPlan\<close>. The dataclass does not check its fields, and
  \<open>generate_transform_sql\<close> stores whatever the decoded reply holds, so every field is a
  JSON value.
\<close>

record transform_plan =
  target_table :: json
  sql :: json
  transformations_applied :: json
  explanation :: json
  estimated_rows_after :: json
  columns_modified :: json

record pending =
  plan :: transform_plan
  source_table :: pystr
  source_schema :: table_schema
  user_request :: pystr

record transform_result =
  success :: bool
  result_target_table :: json
  rows_created :: cell
  message :: pystr
  sql_executed :: json

text \<open>The four fields of \<open>TransformAgent\<close> besides its two services.\<close>

record session =
  state :: agent_state
  pending_transform :: "pending option"
  last_result :: "transform_result option"
  last_mentioned_table :: "(pystr \<times> pystr) option"

definition initial_session :: session where
  "initial_session =
     \<lparr>state = IDLE, pending_transform = None, last_result = None, last_mentioned_table = None\<rparr>"

section \<open>The services\<close>

text \<open>
  The warehouse and the language model are outside the program. Every call to them is
  recorded in a history, and their answer to a call may depend on all the calls made
  before it: the warehouse changes when a command runs, and a listing that succeeded once
  can fail the next time. \<open>table_exists\<close> is a call of \<open>list_tables\<close>, as in
  \<open>DatabricksService\<close>. The prompt sent to the model is \<open>build_transform_prompt\<close> of
  the five arguments recorded in \<open>GenerateSql\<close>; the only query the agent issues itself
  is \<open>SELECT COUNT(*) FROM {target_table}\<close>, recorded as \<open>CountRows\<close>.
\<close>

record llm_request =
  llm_user_request :: pystr
  llm_table_schema :: table_schema
  llm_sample_data :: query_result
  llm_target_schema :: pystr
  llm_catalog :: pystr

datatype call =
    ListTables pystr
  | GetTableSchema pystr pystr
  | GetSampleData pystr pystr nat
  | ExecuteCommand json
  | CountRows json
  | GenerateSql llm_request

type_synonym history = "call list"

record env =
  list_tables_answer :: "history \<Rightarrow> pystr \<Rightarrow> error + pystr list"
  get_table_schema_answer :: "history \<Rightarrow> pystr \<Rightarrow> pystr \<Rightarrow> error + table_schema"
  get_sample_data_answer :: "history \<Rightarrow> pystr \<Rightarrow> pystr \<Rightarrow> nat \<Rightarrow> error + query_result"
  execute_command_answer :: "history \<Rightarrow> json \<Rightarrow> error + unit"
  count_rows_answer :: "history \<Rightarrow> json \<Rightarrow> error + query_result"
  call_claude_answer :: "history \<Rightarrow> llm_request \<Rightarrow> error + pystr"
  json_loads :: "pystr \<Rightarrow> json option"
  unicode :: unicode_db
  settings_catalog :: pystr
  settings_host :: pystr

definition list_tables :: "env \<Rightarrow> pystr \<Rightarrow> history \<Rightarrow> (error + pystr list) \<times> history" where
  "list_tables E sch h = (list_tables_answer E h sch, h @ [ListTables sch])"

definition table_exists :: "env \<Rightarrow> pystr \<Rightarrow> pystr \<Rightarrow> history \<Rightarrow> (error + bool) \<times> history" where
  "table_exists E tbl sch h =
     (case list_tables E sch h of
        (Inl e, h') \<Rightarrow> (Inl e, h')
      | (Inr tables, h') \<Rightarrow> (Inr (tbl \<in> set tables), h'))"

definition get_table_schema ::
    "env \<Rightarrow> pystr \<Rightarrow> pystr \<Rightarrow> history \<Rightarrow> (error + table_schema) \<times> history" where
  "get_table_schema E tbl sch h = (get_table_schema_answer E h tbl sch, h @ [GetTableSchema tbl sch])"

definition get_sample_data ::
    "env \<Rightarrow> pystr \<Rightarrow> pystr \<Rightarrow> nat \<Rightarrow> history \<Rightarrow> (error + query_result) \<times> history" where
  "get_sample_data E tbl sch limit h =
     (get_sample_data_answer E h tbl sch limit, h @ [GetSampleData tbl sch limit])"

definition execute_command :: "env \<Rightarrow> json \<Rightarrow> history \<Rightarrow> (error + unit) \<times> history" where
  "execute_command E q h = (execute_command_answer E h q, h @ [ExecuteCommand q])"

definition count_rows :: "env \<Rightarrow> json \<Rightarrow> history \<Rightarrow> (error + query_result) \<times> history" where
  "count_rows E target h = (count_rows_answer E h target, h @ [CountRows target])"

definition call_claude :: "env \<Rightarrow> llm_request \<Rightarrow> history \<Rightarrow> (error + pystr) \<times> history" where
  "call_claude E req h = (call_claude_answer E h req, h @ [GenerateSql req])"

section \<open>The plan generator\<close>

text \<open>\<open>xs[i]\<close>, which raises \<open>IndexError\<close> out of range.\<close>

definition py_index :: "'a list \<Rightarrow> nat \<Rightarrow> error + 'a" where
  "py_index xs i = (if i < length xs then Inr (xs ! i) else Inl IndexError)"

text \<open>
  The end of the first match of \<open>\}(?!.*\})\<close>: the leftmost closing brace with no
  other closing brace after it on its line.
\<close>

definition brace_open :: int where
  "brace_open = 0x7B"

definition brace_close :: int where
  "brace_close = 0x7D"

fun brace_end :: "pystr \<Rightarrow> nat option" where
  "brace_end [] = None"
| "brace_end (c # cs) =
     (if c = brace_close \<and> brace_close \<notin> set (takeWhile (\<lambda>x. x \<noteq> newline) cs) then Some 1
      else map_option Suc (brace_end cs))"

text \<open>The text between the first code fence and the next one.\<close>

definition fenced :: "pystr \<Rightarrow> pystr \<Rightarrow> error + pystr" where
  "fenced fence text =
     (case py_index (split_sep fence text) 1 of
        Inl e \<Rightarrow> Inl e
      | Inr inner \<Rightarrow> py_index (split_sep (str ''```'') inner) 0)"

text \<open>\<open>LLMService._parse_json_response\<close>; \<open>json.loads\<close> is the library's.\<close>

definition parse_json_response :: "env \<Rightarrow> pystr \<Rightarrow> error + json" where
  "parse_json_response E response =
     (case (let text = strip response in
            if contains (str ''```json'') text then fenced (str ''```json'') text
            else if contains (str ''```'') text then fenced (str ''```'') text
            else Inr text) of
        Inl e \<Rightarrow> Inl e
      | Inr unfenced \<Rightarrow>
          (let text = strip unfenced;
               text = (if \<not> prefix [brace_open] text \<and> brace_open \<in> set text
                       then dropWhile (\<lambda>x. x \<noteq> brace_open) text else text);
               text = (if \<not> suffix [brace_close] text
                       then (case brace_end text of Some n \<Rightarrow> take n text | None \<Rightarrow> text)
                       else text)
           in case json_loads E text of
                None \<Rightarrow> Inl (ParseError (take 500 response))
              | Some data \<Rightarrow> Inr data))"

text \<open>\<open>d.get(key, default)\<close>\<close>

definition dict_get :: "(pystr \<times> json) list \<Rightarrow> pystr \<Rightarrow> json \<Rightarrow> json" where
  "dict_get d k dflt = (case map_of d k of None \<Rightarrow> dflt | Some v \<Rightarrow> v)"

text \<open>
  Lines 206 to 221 of \<open>generate_transform_sql\<close>: from the decoded reply to the plan.
  On a list or a string \<open>data["target_table"]\<close> raises \<open>TypeError\<close> (as does
  \<open>data["estimated_impact"]\<close> when the membership test before it succeeds), and on
  \<open>None\<close>, a number or a boolean the membership test itself does.
\<close>

definition estimated_impact :: "(pystr \<times> json) list \<Rightarrow> error + json \<times> json" where
  "estimated_impact d =
     (case map_of d (str ''estimated_impact'') of
        None \<Rightarrow> Inr (JNull, JNull)
      | Some (JObj impact) \<Rightarrow>
          Inr (dict_get impact (str ''estimated_rows_after'') JNull,
               dict_get impact (str ''columns_modified'') JNull)
      | Some _ \<Rightarrow> Inl AttributeError)"

definition build_plan :: "json \<Rightarrow> error + transform_plan" where
  "build_plan data =
     (case data of
        JObj d \<Rightarrow>
          (case estimated_impact d of
             Inl e \<Rightarrow> Inl e
           | Inr (estimated_rows, cols) \<Rightarrow>
               (case map_of d (str ''target_table'') of
                  None \<Rightarrow> Inl (KeyError (str ''target_table''))
                | Some tt \<Rightarrow>
                    (case map_of d (str ''sql'') of
                       None \<Rightarrow> Inl (KeyError (str ''sql''))
                     | Some q \<Rightarrow>
                         Inr \<lparr>target_table = tt, sql = q,
                              transformations_applied =
                                dict_get d (str ''transformations_applied'') (JList []),
                              explanation = dict_get d (str ''explanation'') (JStr []),
                              estimated_rows_after = estimated_rows,
                              columns_modified = cols\<rparr>)))
      | _ \<Rightarrow> Inl TypeError)"

text \<open>\<open>LLMService.generate_transform_sql\<close>\<close>

definition generate_transform_sql ::
    "env \<Rightarrow> llm_request \<Rightarrow> history \<Rightarrow> (error + transform_plan) \<times> history" where
  "generate_transform_sql E req h =
     (case call_claude E req h of
        (Inl e, h') \<Rightarrow> (Inl e, h')
      | (Inr response, h') \<Rightarrow>
          (case parse_json_response E response of
             Inl e \<Rightarrow> (Inl e, h')
           | Inr data \<Rightarrow> (build_plan data, h')))"

section \<open>The table resolver\<close>

text \<open>\<open>table.lower().replace("raw_", "").replace("stg_", "")\<close>\<close>

definition clean_name :: "unicode_db \<Rightarrow> pystr \<Rightarrow> pystr" where
  "clean_name U tbl = replace (str ''stg_'') [] (replace (str ''raw_'') [] (lower U tbl))"

text \<open>The inner loop of \<open>_identify_table\<close>, over the tables of one schema.\<close>

fun scan_tables ::
    "unicode_db \<Rightarrow> pystr \<Rightarrow> pystr \<Rightarrow> pystr list \<Rightarrow> (pystr \<times> pystr) option" where
  "scan_tables U request_lower sch [] = None"
| "scan_tables U request_lower sch (t # ts) =
     (if contains (lower U t) request_lower then Some (t, sch)
      else if contains (clean_name U t) request_lower \<and> length (clean_name U t) > 2
      then Some (t, sch)
      else scan_tables U request_lower sch ts)"

text \<open>The outer loop: a listing that raises is skipped.\<close>

fun scan_schemas ::
    "env \<Rightarrow> pystr \<Rightarrow> pystr list \<Rightarrow> history \<Rightarrow> (pystr \<times> pystr) option \<times> history" where
  "scan_schemas E request_lower [] h = (None, h)"
| "scan_schemas E request_lower (sch # schs) h =
     (case list_tables E sch h of
        (Inl e, h') \<Rightarrow> scan_schemas E request_lower schs h'
      | (Inr tables, h') \<Rightarrow>
          (case scan_tables (unicode E) request_lower sch tables of
             Some found \<Rightarrow> (Some found, h')
           | None \<Rightarrow> scan_schemas E request_lower schs h'))"

definition layers :: "pystr list" where
  "layers = [str ''bronze'', str ''silver'', str ''gold'']"

text \<open>
  \<open>TransformAgent._identify_table\<close>. \<open>None\<close> is the pair \<open>(None, None)\<close>. The lookup
  of a dotted reference is outside the \<open>try\<close>, so its error leaves the function.
\<close>

definition identify_table ::
    "env \<Rightarrow> pystr \<Rightarrow> history \<Rightarrow> (error + (pystr \<times> pystr) option) \<times> history" where
  "identify_table E request h =
     (case scan_schemas E (lower (unicode E) request) layers h of
        (Some found, h') \<Rightarrow> (Inr (Some found), h')
      | (None, h') \<Rightarrow>
          (case dotted_ref (unicode E) request of
             None \<Rightarrow> (Inr None, h')
           | Some (sch, tbl) \<Rightarrow>
               (case table_exists E tbl sch h' of
                  (Inl e, h'') \<Rightarrow> (Inl e, h'')
                | (Inr ex, h'') \<Rightarrow> (Inr (if ex then Some (tbl, sch) else None), h''))))"

text \<open>
  The truth value of the first component of the resolver's result: \<open>None\<close> and the
  empty string are false.
\<close>

fun named :: "(pystr \<times> pystr) option \<Rightarrow> bool" where
  "named None = False"
| "named (Some (tbl, sch)) = (tbl \<noteq> [])"

section \<open>The intent classifier\<close>

definition question_patterns :: "pattern list" where
  "question_patterns =
     [Pat True (Cat (Lit (str ''what'')) (One Space)),
      Pat True (Cat (Lit (str ''which'')) (One Space)),
      Pat True (Cat (Lit (str ''how'')) (One Space)),
      Pat True (Cat (Lit (str ''can you '')) (alts [str ''tell'', str ''show'', str ''list'', str ''explain''])),
      Pat True (Lit (str ''tell me'')),
      Pat True (Lit (str ''show me'')),
      Pat True (Cat (Lit (str ''list'')) (One Space)),
      Pat True (cat_all [Lit (str ''do''), Opt (Lit (str ''es'')), One Space, Many Dot, Lit (str ''?'')]),
      Pat True (cat_all [Lit (str ''is''), One Space, Many Dot, Lit (str ''?'')]),
      Pat True (cat_all [Lit (str ''are''), One Space, Many Dot, Lit (str ''?'')]),
      Pat False (Cat (Lit (str ''?'')) Eol),
      Pat False (cat_all [Lit (str ''what ''), alts [str ''are'', str ''is''], Lit (str '' ''), alts [str ''the'', str ''in'']]),
      Pat False (Lit (str ''how many'')),
      Pat False (Lit (str ''tell me about'')),
      Pat False (Lit (str ''explain'')),
      Pat False (Lit (str ''describe''))]"

definition transform_patterns :: "pattern list" where
  "transform_patterns =
     [Pat False (Cat (Lit (str ''clean'')) (One Space)),
      Pat False (Cat (Lit (str ''transform'')) (One Space)),
      Pat False (Cat (Lit (str ''convert'')) (One Space)),
      Pat False (Cat (Lit (str ''create'')) (One Space)),
      Pat False (cat_all [Lit (str ''remove''), One Space, Many Dot, alts [str ''null'', str ''duplicate'', str ''dupe'']]),
      Pat False (Lit (str ''dedupe'')),
      Pat False (Lit (str ''deduplicate'')),
      Pat False (Lit (str ''standardize'')),
      Pat False (Lit (str ''normalize'')),
      Pat False (Lit (str ''aggregate'')),
      Pat False (Cat (Lit (str ''save '')) (alts [str ''to'', str ''into''])),
      Pat False (Cat (Lit (str ''move '')) (alts [str ''to'', str ''into''])),
      Pat False (Cat (Lit (str ''filter'')) (One Space)),
      Pat False (cat_all [alts [str ''remove'', str ''drop'', str ''delete''], One Space, Many Dot, Lit (str ''rows'')]),
      Pat False (cat_all [alts [str ''add'', str ''create''], One Space, Many Dot, Lit (str ''column'')]),
      Pat False (Cat (Lit (str ''rename'')) (One Space)),
      Pat False (Cat (Lit (str ''cast'')) (One Space)),
      Pat False (Cat (Lit (str ''join'')) (One Space)),
      Pat False (Cat (Lit (str ''merge'')) (One Space))]"

definition matches_any :: "pattern list \<Rightarrow> pystr \<Rightarrow> bool" where
  "matches_any ps text = list_ex (\<lambda>p. re_search p text) ps"

text \<open>The words that make a message naming a table a transform request.\<close>

definition action_words :: "pystr list" where
  "action_words = [str ''clean'', str ''fix'', str ''update'', str ''change'', str ''modify'', str ''process'']"

text \<open>\<open>TransformAgent._detect_intent\<close>\<close>

definition detect_intent :: "env \<Rightarrow> pystr \<Rightarrow> history \<Rightarrow> (error + user_intent) \<times> history" where
  "detect_intent E msg h =
     (let message_lower = lower (unicode E) msg in
      if matches_any question_patterns message_lower then (Inr QUESTION, h)
      else if matches_any transform_patterns message_lower then (Inr TRANSFORM, h)
      else
        (case identify_table E msg h of
           (Inl e, h') \<Rightarrow> (Inl e, h')
         | (Inr found, h') \<Rightarrow>
             if named found \<and>
                any_in action_words message_lower
             then (Inr TRANSFORM, h')
             else if length (split_ws msg) < 5 then (Inr UNCLEAR, h')
             else (Inr UNCLEAR, h')))"

section \<open>Responses\<close>

text \<open>
  \<open>chat\<close> returns a text. Each constructor below stands for one \<open>return\<close> of the
  agent, and carries the values that its text is formatted from:
  \<^item> \<open>NoPendingToExecute\<close>, \<open>TransformComplete\<close>, \<open>ExecutionFailed\<close>:
    \<open>_execute_pending_transform\<close>;
  \<^item> \<open>TransformCancelled\<close>: \<open>_cancel_pending_transform\<close>;
  \<^item> \<open>PendingSql\<close>, \<open>NoPendingTransform\<close>: \<open>_show_pending_sql\<close>;
  \<^item> \<open>ConfirmOrCancel\<close>: \<open>_handle_confirmation_unclear\<close>;
  \<^item> \<open>Help\<close>: \<open>_show_help\<close>; \<open>TableList\<close>: \<open>_list_tables\<close>;
    \<open>Status\<close>: \<open>_show_status\<close>;
  \<^item> \<open>TableNotFound\<close>, \<open>InvalidTableReference\<close>, \<open>TableDescription\<close>,
    \<open>ErrorDescribingTable\<close>: \<open>_describe_table\<close>;
  \<^item> \<open>TableColumns\<close>, \<open>ErrorGettingColumns\<close>: \<open>_describe_table_columns\<close>;
  \<^item> \<open>TablePreview\<close>, \<open>ErrorPreviewingTable\<close>: \<open>_show_table_preview\<close>;
  \<^item> \<open>WhichTable\<close>: \<open>_ask_which_table\<close>; \<open>GenericQuestionHelp\<close>:
    \<open>_handle_generic_question\<close>; \<open>FoundTable\<close>: \<open>_handle_unclear_intent\<close>;
  \<^item> \<open>PlanForConfirmation\<close>: \<open>_format_plan_for_confirmation\<close>;
    \<open>ErrorProcessingRequest\<close>: \<open>_handle_transform_request\<close>;
  \<^item> \<open>TableClarification\<close>, \<open>NoTablesFound\<close>: \<open>_ask_for_table_clarification\<close>.
\<close>

datatype response =
    NoPendingToExecute
  | TransformComplete json cell
  | ExecutionFailed error
  | TransformCancelled
  | PendingSql json
  | NoPendingTransform
  | ConfirmOrCancel
  | Help
  | TableList "(pystr \<times> (pystr \<times> int option) list) list"
  | Status agent_state "pending option" "transform_result option"
  | TableNotFound pystr
  | InvalidTableReference pystr
  | TableDescription table_schema query_result
  | ErrorDescribingTable error
  | TableColumns pystr pystr table_schema
  | ErrorGettingColumns error
  | TablePreview pystr pystr table_schema query_result
  | ErrorPreviewingTable error
  | WhichTable pystr "(pystr \<times> pystr) list"
  | GenericQuestionHelp
  | FoundTable pystr pystr
  | PlanForConfirmation transform_plan table_schema
  | ErrorProcessingRequest error
  | TableClarification "(pystr \<times> pystr) list"
  | NoTablesFound

text \<open>
  The two texts that the claims read. \<open>backticks\<close> is the code fence; the cross mark
  is the code point \<open>U+274C\<close>.
\<close>

definition backticks :: pystr where
  "backticks = str ''```''"

definition cross_mark :: pystr where
  "cross_mark = [0x274C]"

definition execution_failed_text :: "pystr \<Rightarrow> pystr" where
  "execution_failed_text err =
     cross_mark @ str '' **Execution failed:**'' @ [newline, newline] @ backticks @ [newline] @ err @
     [newline] @ backticks @ [newline, newline] @ str ''Please check the SQL and try again.''"

definition pending_sql_text :: "pystr \<Rightarrow> pystr" where
  "pending_sql_text q =
     (str ''## Generated SQL'') @ [newline] @ backticks @ str ''sql'' @ [newline] @ q @ [newline] @
     backticks @ [newline, newline] @
     (str ''**Commands:** `confirm` to execute, `cancel` to abort.'') @ [newline]"

section \<open>Formatting that can raise\<close>

text \<open>What Python accepts in \<open>for t in x\<close>, in \<open>if x\<close> and under the format \<open>:,\<close>.\<close>

fun iterable :: "json \<Rightarrow> bool" where
  "iterable (JStr s) = True"
| "iterable (JList xs) = True"
| "iterable (JObj d) = True"
| "iterable _ = False"

fun truthy :: "json \<Rightarrow> bool" where
  "truthy JNull = False"
| "truthy (JBool b) = b"
| "truthy (JInt n) = (n \<noteq> 0)"
| "truthy (JFloat m e) = (m \<noteq> 0)"
| "truthy (JStr s) = (s \<noteq> [])"
| "truthy (JList xs) = (xs \<noteq> [])"
| "truthy (JObj d) = (d \<noteq> [])"

fun comma_format :: "json \<Rightarrow> error option" where
  "comma_format (JInt n) = None"
| "comma_format (JFloat m e) = None"
| "comma_format (JBool b) = None"
| "comma_format (JStr s) = Some ValueError"
| "comma_format _ = Some TypeError"

fun comma_format_cell :: "cell \<Rightarrow> error option" where
  "comma_format_cell (CInt n) = None"
| "comma_format_cell (CText s) = Some ValueError"
| "comma_format_cell CNull = Some TypeError"

fun is_str :: "json \<Rightarrow> bool" where
  "is_str (JStr s) = True"
| "is_str _ = False"

text \<open>
  \<open>_format_plan_for_confirmation\<close>: the loop over the transformations, the estimate
  formatted with \<open>:,\<close> when it is true, and the final \<open>join\<close>, which needs \<open>plan.sql\<close>
  to be a string.
\<close>

definition format_plan_for_confirmation :: "transform_plan \<Rightarrow> table_schema \<Rightarrow> error + response" where
  "format_plan_for_confirmation pl ts =
     (if \<not> iterable (transformations_applied pl) then Inl TypeError
      else
        (case (if truthy (estimated_rows_after pl) then comma_format (estimated_rows_after pl)
               else None) of
           Some e \<Rightarrow> Inl e
         | None \<Rightarrow>
             if \<not> is_str (sql pl) then Inl TypeError else Inr (PlanForConfirmation pl ts)))"

text \<open>
  \<open>_format_success_message\<close>: the row count under \<open>:,\<close>, then
  \<open>target_table.split('.')\<close>, which only a string has.
\<close>

definition format_success_message :: "json \<Rightarrow> cell \<Rightarrow> error + response" where
  "format_success_message target rc =
     (case comma_format_cell rc of
        Some e \<Rightarrow> Inl e
      | None \<Rightarrow> if is_str target then Inr (TransformComplete target rc) else Inl AttributeError)"

section \<open>The confirmation gate\<close>

text \<open>\<open>result.rows[0][0] if result.rows else 0\<close>\<close>

definition first_cell :: "query_result \<Rightarrow> error + cell" where
  "first_cell res =
     (case rows res of
        [] \<Rightarrow> Inr (CInt 0)
      | r # _ \<Rightarrow> (case r of [] \<Rightarrow> Inl IndexError | c # _ \<Rightarrow> Inr c))"

text \<open>The \<open>except\<close> branch of \<open>_execute_pending_transform\<close>.\<close>

definition execution_failed :: "error \<Rightarrow> session \<Rightarrow> response \<times> session" where
  "execution_failed e s = (ExecutionFailed e, s\<lparr>state := IDLE, pending_transform := None\<rparr>)"

text \<open>\<open>TransformAgent._execute_pending_transform\<close>\<close>

definition execute_pending_transform ::
    "env \<Rightarrow> session \<Rightarrow> history \<Rightarrow> response \<times> session \<times> history" where
  "execute_pending_transform E s h =
     (case pending_transform s of
        None \<Rightarrow> (NoPendingToExecute, s\<lparr>state := IDLE\<rparr>, h)
      | Some p \<Rightarrow>
          (let s = s\<lparr>state := EXECUTING\<rparr>; pl = plan p in
           case execute_command E (sql pl) h of
             (Inl e, h) \<Rightarrow> (case execution_failed e s of (r, s) \<Rightarrow> (r, s, h))
           | (Inr _, h) \<Rightarrow>
               (case count_rows E (target_table pl) h of
                  (Inl e, h) \<Rightarrow> (case execution_failed e s of (r, s) \<Rightarrow> (r, s, h))
                | (Inr res, h) \<Rightarrow>
                    (case first_cell res of
                       Inl e \<Rightarrow> (case execution_failed e s of (r, s) \<Rightarrow> (r, s, h))
                     | Inr rc \<Rightarrow>
                         (let s = s\<lparr>last_result :=
                                    Some \<lparr>success = True, result_target_table = target_table pl,
                                          rows_created = rc,
                                          message = str ''Transform executed successfully'',
                                          sql_executed = sql pl\<rparr>\<rparr>;
                              s = s\<lparr>pending_transform := None\<rparr>;
                              s = s\<lparr>state := IDLE\<rparr>
                          in case format_success_message (target_table pl) rc of
                               Inl e \<Rightarrow> (case execution_failed e s of (r, s) \<Rightarrow> (r, s, h))
                             | Inr r \<Rightarrow> (r, s, h))))))"

text \<open>\<open>TransformAgent._cancel_pending_transform\<close>\<close>

definition cancel_pending_transform :: "session \<Rightarrow> response \<times> session" where
  "cancel_pending_transform s =
     (TransformCancelled, s\<lparr>pending_transform := None, state := IDLE\<rparr>)"

text \<open>\<open>TransformAgent._show_pending_sql\<close>\<close>

definition show_pending_sql :: "session \<Rightarrow> response" where
  "show_pending_sql s =
     (case pending_transform s of
        None \<Rightarrow> NoPendingTransform
      | Some p \<Rightarrow> PendingSql (sql (plan p)))"

text \<open>\<open>TransformAgent._handle_confirmation_unclear\<close>\<close>

definition handle_confirmation_unclear :: "pystr \<Rightarrow> response" where
  "handle_confirmation_unclear user_message = ConfirmOrCancel"

section \<open>Commands\<close>

text \<open>The inner loop of \<open>_list_tables\<close>: a table whose schema cannot be read is listed without its row count.\<close>

fun list_rows ::
    "env \<Rightarrow> pystr \<Rightarrow> pystr list \<Rightarrow> history \<Rightarrow> (pystr \<times> int option) list \<times> history" where
  "list_rows E sch [] h = ([], h)"
| "list_rows E sch (t # ts) h =
     (case get_table_schema E t sch h of
        (Inl e, h) \<Rightarrow> (case list_rows E sch ts h of (ls, h) \<Rightarrow> ((t, None) # ls, h))
      | (Inr info, h) \<Rightarrow>
          (case list_rows E sch ts h of (ls, h) \<Rightarrow> ((t, Some (row_count info)) # ls, h)))"

fun list_layers ::
    "env \<Rightarrow> pystr list \<Rightarrow> history \<Rightarrow> (pystr \<times> (pystr \<times> int option) list) list \<times> history" where
  "list_layers E [] h = ([], h)"
| "list_layers E (sch # schs) h =
     (case list_tables E sch h of
        (Inl e, h) \<Rightarrow> list_layers E schs h
      | (Inr tables, h) \<Rightarrow>
          if tables \<noteq> [] then
            (case list_rows E sch tables h of
               (ls, h) \<Rightarrow> (case list_layers E schs h of (rest, h) \<Rightarrow> ((sch, ls) # rest, h)))
          else list_layers E schs h)"

text \<open>\<open>TransformAgent._list_tables\<close>\<close>

definition agent_list_tables :: "env \<Rightarrow> history \<Rightarrow> response \<times> history" where
  "agent_list_tables E h = (case list_layers E layers h of (ls, h) \<Rightarrow> (TableList ls, h))"

text \<open>The probe of \<open>_describe_table\<close> for a bare table name; it is outside the \<open>try\<close>.\<close>

fun probe_layers ::
    "env \<Rightarrow> pystr \<Rightarrow> pystr list \<Rightarrow> history \<Rightarrow> (error + pystr option) \<times> history" where
  "probe_layers E tbl [] h = (Inr None, h)"
| "probe_layers E tbl (sch # schs) h =
     (case table_exists E tbl sch h of
        (Inl e, h) \<Rightarrow> (Inl e, h)
      | (Inr ex, h) \<Rightarrow> if ex then (Inr (Some sch), h) else probe_layers E tbl schs h)"

text \<open>The \<open>try\<close> block of \<open>_describe_table\<close>.\<close>

definition describe_resolved ::
    "env \<Rightarrow> pystr \<Rightarrow> pystr \<Rightarrow> session \<Rightarrow> history \<Rightarrow> response \<times> session \<times> history" where
  "describe_resolved E tbl sch s h =
     (let s = s\<lparr>last_mentioned_table := Some (tbl, sch)\<rparr> in
      case get_table_schema E tbl sch h of
        (Inl e, h) \<Rightarrow> (ErrorDescribingTable e, s, h)
      | (Inr info, h) \<Rightarrow>
          (case get_sample_data E tbl sch 3 h of
             (Inl e, h) \<Rightarrow> (ErrorDescribingTable e, s, h)
           | (Inr sample, h) \<Rightarrow> (TableDescription info sample, s, h)))"

text \<open>\<open>TransformAgent._describe_table\<close>\<close>

definition reference_parts :: "pystr \<Rightarrow> pystr list" where
  "reference_parts table_ref = split_sep (str ''.'') (replace (str ''`'') [] table_ref)"

definition describe_table ::
    "env \<Rightarrow> pystr \<Rightarrow> session \<Rightarrow> history \<Rightarrow> (error + response) \<times> session \<times> history" where
  "describe_table E table_ref s h =
     (let parts = reference_parts table_ref in
      if length parts = 2 then
        (case describe_resolved E (parts ! 1) (parts ! 0) s h of (r, s, h) \<Rightarrow> (Inr r, s, h))
      else if length parts = 1 then
        (case probe_layers E (parts ! 0) layers h of
           (Inl e, h) \<Rightarrow> (Inl e, s, h)
         | (Inr None, h) \<Rightarrow> (Inr (TableNotFound (parts ! 0)), s, h)
         | (Inr (Some sch), h) \<Rightarrow>
             (case describe_resolved E (parts ! 0) sch s h of (r, s, h) \<Rightarrow> (Inr r, s, h)))
      else (Inr (InvalidTableReference table_ref), s, h))"

text \<open>
  \<open>TransformAgent._show_status\<close>: the row count of the last result is formatted with
  \<open>:,\<close>.
\<close>

definition show_status :: "session \<Rightarrow> error + response" where
  "show_status s =
     (case last_result s of
        None \<Rightarrow> Inr (Status (state s) (pending_transform s) None)
      | Some res \<Rightarrow>
          (case comma_format_cell (rows_created res) of
             Some e \<Rightarrow> Inl e
           | None \<Rightarrow> Inr (Status (state s) (pending_transform s) (Some res))))"

section \<open>Questions\<close>

text \<open>\<open>TransformAgent._describe_table_columns\<close>\<close>

definition describe_table_columns :: "env \<Rightarrow> pystr \<Rightarrow> pystr \<Rightarrow> history \<Rightarrow> response \<times> history" where
  "describe_table_columns E tbl sch h =
     (case get_table_schema E tbl sch h of
        (Inl e, h) \<Rightarrow> (ErrorGettingColumns e, h)
      | (Inr info, h) \<Rightarrow> (TableColumns tbl sch info, h))"

text \<open>\<open>TransformAgent._show_table_preview\<close>\<close>

definition show_table_preview :: "env \<Rightarrow> pystr \<Rightarrow> pystr \<Rightarrow> history \<Rightarrow> response \<times> history" where
  "show_table_preview E tbl sch h =
     (case get_table_schema E tbl sch h of
        (Inl e, h) \<Rightarrow> (ErrorPreviewingTable e, h)
      | (Inr info, h) \<Rightarrow>
          (case get_sample_data E tbl sch 5 h of
             (Inl e, h) \<Rightarrow> (ErrorPreviewingTable e, h)
           | (Inr sample, h) \<Rightarrow> (TablePreview tbl sch info sample, h)))"

text \<open>
  The loop shared by \<open>_ask_which_table\<close> and \<open>_ask_for_table_clarification\<close>: every
  table of every layer whose listing succeeds.
\<close>

fun available_tables :: "env \<Rightarrow> pystr list \<Rightarrow> history \<Rightarrow> (pystr \<times> pystr) list \<times> history" where
  "available_tables E [] h = ([], h)"
| "available_tables E (sch # schs) h =
     (case list_tables E sch h of
        (Inl e, h) \<Rightarrow> available_tables E schs h
      | (Inr tables, h) \<Rightarrow>
          (case available_tables E schs h of
             (rest, h) \<Rightarrow> (map (\<lambda>t. (sch, t)) tables @ rest, h)))"

text \<open>\<open>TransformAgent._ask_which_table\<close>\<close>

definition ask_which_table :: "env \<Rightarrow> pystr \<Rightarrow> history \<Rightarrow> response \<times> history" where
  "ask_which_table E action h =
     (case available_tables E layers h of (ts, h) \<Rightarrow> (WhichTable action ts, h))"

text \<open>\<open>TransformAgent._ask_for_table_clarification\<close>\<close>

definition ask_for_table_clarification :: "env \<Rightarrow> pystr \<Rightarrow> history \<Rightarrow> response \<times> history" where
  "ask_for_table_clarification E request h =
     (case available_tables E layers h of
        (ts, h) \<Rightarrow> (if ts \<noteq> [] then TableClarification ts else NoTablesFound, h))"

text \<open>
  The fall-back to the table mentioned last, in \<open>_handle_question\<close> and in
  \<open>_handle_transform_request\<close> (which differ in their last trigger word).
\<close>

definition recall :: "pystr list \<Rightarrow> pystr \<Rightarrow> session \<Rightarrow> (pystr \<times> pystr) option \<Rightarrow> (pystr \<times> pystr) option" where
  "recall triggers text_lower s found =
     (if \<not> named found \<and> last_mentioned_table s \<noteq> None \<and> any_in triggers text_lower
      then last_mentioned_table s else found)"

text \<open>\<open>TransformAgent._handle_question\<close>\<close>

definition handle_question ::
    "env \<Rightarrow> pystr \<Rightarrow> session \<Rightarrow> history \<Rightarrow> (error + response) \<times> session \<times> history" where
  "handle_question E question s h =
     (let question_lower = lower (unicode E) question in
      case identify_table E question h of
        (Inl e, h) \<Rightarrow> (Inl e, s, h)
      | (Inr found, h) \<Rightarrow>
          (let found = recall [str ''this table'', str ''that table'', str ''the table'', str ''it''] question_lower s found;
               tbl = fst (the found); sch = snd (the found)
           in
           if any_in [str ''column'', str ''columns'', str ''field'', str ''fields'', str ''schema'',
                      str ''what are the'', str ''what is in'', str ''structure''] question_lower then
             (if named found then
                (case describe_table_columns E tbl sch h of
                   (r, h) \<Rightarrow> (Inr r, s\<lparr>last_mentioned_table := Some (tbl, sch)\<rparr>, h))
              else (case ask_which_table E (str ''see the columns of'') h of (r, h) \<Rightarrow> (Inr r, s, h)))
           else if any_in [str ''how many rows'', str ''row count'', str ''how much data'', str ''sample'',
                           str ''show me data'', str ''what does'', str ''look like'', str ''preview'']
                     question_lower then
             (if named found then
                (case show_table_preview E tbl sch h of
                   (r, h) \<Rightarrow> (Inr r, s\<lparr>last_mentioned_table := Some (tbl, sch)\<rparr>, h))
              else (case ask_which_table E (str ''preview'') h of (r, h) \<Rightarrow> (Inr r, s, h)))
           else if any_in [str ''what tables'', str ''which tables'', str ''available tables'',
                           str ''list tables'', str ''show tables'', str ''tables do''] question_lower then
             (case agent_list_tables E h of (r, h) \<Rightarrow> (Inr r, s, h))
           else if named found then
             describe_table E (sch @ str ''.'' @ tbl) (s\<lparr>last_mentioned_table := Some (tbl, sch)\<rparr>) h
           else if any_in [str ''what can you'', str ''how do i'', str ''how to'', str ''help me''] question_lower
           then (Inr Help, s, h)
           else (Inr GenericQuestionHelp, s, h)))"

text \<open>\<open>TransformAgent._handle_unclear_intent\<close>\<close>

definition handle_unclear_intent ::
    "env \<Rightarrow> pystr \<Rightarrow> session \<Rightarrow> history \<Rightarrow> (error + response) \<times> session \<times> history" where
  "handle_unclear_intent E msg s h =
     (case identify_table E msg h of
        (Inl e, h) \<Rightarrow> (Inl e, s, h)
      | (Inr found, h) \<Rightarrow>
          if named found then
            (Inr (FoundTable (fst (the found)) (snd (the found))),
             s\<lparr>last_mentioned_table := found\<rparr>, h)
          else (Inr GenericQuestionHelp, s, h))"

section \<open>Transform requests\<close>

text \<open>
  \<open>TransformAgent._handle_transform_request\<close>. The whole body is one \<open>try\<close> whose
  handler returns the error text and touches no field.
\<close>

definition handle_transform_request ::
    "env \<Rightarrow> pystr \<Rightarrow> session \<Rightarrow> history \<Rightarrow> response \<times> session \<times> history" where
  "handle_transform_request E request s h =
     (case identify_table E request h of
        (Inl e, h) \<Rightarrow> (ErrorProcessingRequest e, s, h)
      | (Inr found, h) \<Rightarrow>
          (let found = recall [str ''this table'', str ''that table'', str ''the table'', str ''it ''] (lower (unicode E) request) s found
           in
           if \<not> named found then
             (case ask_for_table_clarification E request h of (r, h) \<Rightarrow> (r, s, h))
           else
             (let tbl = fst (the found); sch = snd (the found);
                  s = s\<lparr>last_mentioned_table := Some (tbl, sch)\<rparr>
              in
              case get_table_schema E tbl sch h of
                (Inl e, h) \<Rightarrow> (ErrorProcessingRequest e, s, h)
              | (Inr info, h) \<Rightarrow>
                  (case get_sample_data E tbl sch 5 h of
                     (Inl e, h) \<Rightarrow> (ErrorProcessingRequest e, s, h)
                   | (Inr sample, h) \<Rightarrow>
                       (let target = determine_target_layer (unicode E) request sch in
                        case generate_transform_sql E
                               \<lparr>llm_user_request = request, llm_table_schema = info,
                                llm_sample_data = sample, llm_target_schema = target,
                                llm_catalog = settings_catalog E\<rparr> h of
                          (Inl e, h) \<Rightarrow> (ErrorProcessingRequest e, s, h)
                        | (Inr pl, h) \<Rightarrow>
                            (let s = s\<lparr>pending_transform :=
                                       Some \<lparr>plan = pl, source_table = sch @ str ''.'' @ tbl,
                                             source_schema = info, user_request = request\<rparr>\<rparr>;
                                 s = s\<lparr>state := AWAITING_CONFIRMATION\<rparr>
                             in case format_plan_for_confirmation pl info of
                                  Inl e \<Rightarrow> (ErrorProcessingRequest e, s, h)
                                | Inr r \<Rightarrow> (r, s, h)))))))"

section \<open>The session state machine\<close>

text \<open>
  \<open>message.split(" ", 1)[1]\<close>: what follows the first space, and \<open>IndexError\<close>
  for a message without a space.
\<close>

definition after_first_space :: "pystr \<Rightarrow> error + pystr" where
  "after_first_space msg =
     (if 0x20 \<in> set msg then Inr (drop 1 (dropWhile (\<lambda>c. c \<noteq> 0x20) msg))
      else Inl IndexError)"

text \<open>The word lists that \<open>chat\<close> compares the stripped, lower-cased message with.\<close>

definition confirm_words :: "pystr list" where
  "confirm_words = [str ''confirm'', str ''yes'', str ''y'', str ''execute'', str ''run'']"

definition cancel_words :: "pystr list" where
  "cancel_words = [str ''cancel'', str ''no'', str ''n'', str ''abort'']"

definition show_sql_words :: "pystr list" where
  "show_sql_words = [str ''show sql'', str ''sql'']"

definition help_words :: "pystr list" where
  "help_words = [str ''help'', str ''?'']"

definition list_tables_words :: "pystr list" where
  "list_tables_words = [str ''show tables'', str ''list tables'', str ''tables'']"

definition status_words :: "pystr list" where
  "status_words = [str ''status'', str ''state'']"

text \<open>The branch of \<open>chat\<close> taken while a plan awaits confirmation.\<close>

definition confirmation_gate ::
    "env \<Rightarrow> pystr \<Rightarrow> pystr \<Rightarrow> session \<Rightarrow> history \<Rightarrow> response \<times> session \<times> history" where
  "confirmation_gate E user_message message_lower s h =
     (if message_lower \<in> set confirm_words then
        execute_pending_transform E s h
      else if message_lower \<in> set cancel_words then
        (case cancel_pending_transform s of (r, s) \<Rightarrow> (r, s, h))
      else if message_lower \<in> set show_sql_words then (show_pending_sql s, s, h)
      else (handle_confirmation_unclear user_message, s, h))"

text \<open>
  \<open>TransformAgent.chat\<close>. The result is the response or the exception that leaves
  \<open>chat\<close>, with the session and the history as the call leaves them.
\<close>

definition chat ::
    "env \<Rightarrow> pystr \<Rightarrow> session \<Rightarrow> history \<Rightarrow> (error + response) \<times> session \<times> history" where
  "chat E user_message s h =
     (let msg = strip user_message; message_lower = lower (unicode E) msg in
      if state s = AWAITING_CONFIRMATION then
        (case confirmation_gate E user_message message_lower s h of (r, s, h) \<Rightarrow> (Inr r, s, h))
      else if message_lower \<in> set help_words then (Inr Help, s, h)
      else if message_lower \<in> set list_tables_words then
        (case agent_list_tables E h of (r, h) \<Rightarrow> (Inr r, s, h))
      else if prefix (str ''describe '') message_lower \<or> prefix (str ''desc '') message_lower then
        (case after_first_space msg of
           Inl e \<Rightarrow> (Inl e, s, h)
         | Inr table_name \<Rightarrow> describe_table E (strip table_name) s h)
      else if message_lower \<in> set status_words then (show_status s, s, h)
      else
        (case detect_intent E msg h of
           (Inl e, h) \<Rightarrow> (Inl e, s, h)
         | (Inr intent, h) \<Rightarrow>
             if intent = QUESTION then handle_question E msg s h
             else if intent = TRANSFORM then
               (case handle_transform_request E msg s h of (r, s, h) \<Rightarrow> (Inr r, s, h))
             else handle_unclear_intent E msg s h))"

text \<open>A conversation: the messages of successive turns, from a session and a history.\<close>

fun chats :: "env \<Rightarrow> pystr list \<Rightarrow> session \<Rightarrow> history \<Rightarrow> session \<times> history" where
  "chats E [] s h = (s, h)"
| "chats E (m # ms) s h = (case chat E m s h of (r, s, h) \<Rightarrow> chats E ms s h)"

section \<open>Invariants and frames\<close>

text \<open>
  The invariant of the session between two turns: a plan is pending exactly when the
  state is \<open>AWAITING_CONFIRMATION\<close>, and the state is not \<open>EXECUTING\<close>.
\<close>

definition session_inv :: "session \<Rightarrow> bool" where
  "session_inv s \<longleftrightarrow>
     ((pending_transform s \<noteq> None) = (state s = AWAITING_CONFIRMATION)) \<and> state s \<noteq> EXECUTING"

text \<open>
  What a handler outside the confirmation gate may do to the session when it starts no
  plan: write a pair to \<open>last_mentioned_table\<close>, and nothing else.
\<close>

definition keeps_gate :: "session \<Rightarrow> session \<Rightarrow> bool" where
  "keeps_gate s s' \<longleftrightarrow>
     state s' = state s \<and> pending_transform s' = pending_transform s \<and>
     last_result s' = last_result s \<and>
     (last_mentioned_table s' = last_mentioned_table s \<or> last_mentioned_table s' \<noteq> None)"

section \<open>An example warehouse\<close>

text \<open>
  A warehouse whose bronze layer holds the one table \<open>raw_customers\<close>, a model reply
  for a request to clean it, and what \<open>json.loads\<close> makes of that reply. The only
  code points outside ASCII in the examples are white space, which \<open>str.lower\<close>
  leaves as it is and which is not alphanumeric; so the examples take, for the Unicode
  database, the function that lower-cases the ASCII letters of a text, and no alphanumeric
  code point outside ASCII.
\<close>

definition example_sql :: pystr where
  "example_sql = str ''CREATE OR REPLACE TABLE workspace.silver.customers AS SELECT DISTINCT * FROM workspace.bronze.raw_customers''"

definition example_reply :: pystr where
  \<open>example_reply =
     (str ''{"target_table": "workspace.silver.customers", "sql": "'') @ example_sql @
     (str ''", "transformations_applied": ["dedupe"], "estimated_impact": {"estimated_rows_after": 96}}'')\<close>

definition example_data :: json where
  "example_data =
     JObj [(str ''target_table'', JStr (str ''workspace.silver.customers'')),
           (str ''sql'', JStr example_sql),
           (str ''transformations_applied'', JList [JStr (str ''dedupe'')]),
           (str ''estimated_impact'', JObj [(str ''estimated_rows_after'', JInt 96)])]"

definition example_schema :: "pystr \<Rightarrow> pystr \<Rightarrow> table_schema" where
  "example_schema tbl sch =
     \<lparr>catalog = str ''workspace'', schema = sch, table = tbl,
      columns = [\<lparr>column_name = str ''contact_id'', data_type = str ''bigint'', nullable = True,
                  comment = None\<rparr>],
      row_count = 120\<rparr>"

definition example_env :: env where
  "example_env =
     \<lparr>list_tables_answer = (\<lambda>h sch. if sch = str ''bronze'' then Inr [str ''raw_customers''] else Inr []),
      get_table_schema_answer = (\<lambda>h tbl sch. Inr (example_schema tbl sch)),
      get_sample_data_answer =
        (\<lambda>h tbl sch n. Inr \<lparr>result_columns = [str ''contact_id''], rows = [[CInt 1]]\<rparr>),
      execute_command_answer = (\<lambda>h q. Inr ()),
      count_rows_answer = (\<lambda>h t. Inr \<lparr>result_columns = [str ''count(1)''], rows = [[CInt 96]]\<rparr>),
      call_claude_answer = (\<lambda>h req. Inr example_reply),
      json_loads = (\<lambda>t. if t = example_reply then Some example_data else None),
      unicode = \<lparr>unicode_lower = map lower_char, unicode_alnum = (\<lambda>c. False)\<rparr>,
      settings_catalog = str ''workspace'',
      settings_host = str ''example.cloud.databricks.com''\<rparr>"

definition example_plan :: transform_plan where
  "example_plan =
     \<lparr>target_table = JStr (str ''workspace.silver.customers''), sql = JStr example_sql,
      transformations_applied = JList [JStr (str ''dedupe'')], explanation = JStr [],
      estimated_rows_after = JInt 96, columns_modified = JNull\<rparr>"

definition example_pending :: pending where
  "example_pending =
     \<lparr>plan = example_plan, source_table = str ''bronze.raw_customers'',
      source_schema = example_schema (str ''raw_customers'') (str ''bronze''),
      user_request = str ''Clean raw_customers''\<rparr>"

text \<open>The session after the request \<open>Clean raw_customers\<close>.\<close>

definition example_awaiting :: session where
  "example_awaiting =
     \<lparr>state = AWAITING_CONFIRMATION, pending_transform = Some example_pending,
      last_result = None, last_mentioned_table = Some (str ''raw_customers'', str ''bronze'')\<rparr>"

text \<open>The same warehouse when the command of a confirmed plan fails.\<close>

definition failing_env :: env where
  "failing_env =
     example_env\<lparr>execute_command_answer := (\<lambda>h q. Inl (ServiceError (str ''PERMISSION_DENIED'')))\<rparr>"

section \<open>Further examples\<close>

text \<open>
  A reply whose estimate is a text: the prompt asks for \<open>"estimated_rows_after": <your
  estimate>\<close>, and the model answers in words.
\<close>

definition worded_reply :: pystr where
  \<open>worded_reply =
     (str ''{"target_table": "workspace.silver.customers", "sql": "'') @ example_sql @
     (str ''", "estimated_impact": {"estimated_rows_after": "about 96"}}'')\<close>

definition worded_data :: json where
  "worded_data =
     JObj [(str ''target_table'', JStr (str ''workspace.silver.customers'')),
           (str ''sql'', JStr example_sql),
           (str ''estimated_impact'', JObj [(str ''estimated_rows_after'', JStr (str ''about 96''))])]"

definition worded_env :: env where
  "worded_env =
     example_env\<lparr>call_claude_answer := (\<lambda>h req. Inr worded_reply),
                  json_loads := (\<lambda>t. if t = worded_reply then Some worded_data else None)\<rparr>"

text \<open>A reply with an empty SQL text and a bare table name.\<close>

definition bare_reply :: pystr where
  \<open>bare_reply = str ''{"target_table": "customers", "sql": ""}''\<close>

definition bare_data :: json where
  "bare_data = JObj [(str ''target_table'', JStr (str ''customers'')), (str ''sql'', JStr [])]"

definition bare_env :: env where
  "bare_env =
     example_env\<lparr>call_claude_answer := (\<lambda>h req. Inr bare_reply),
                  json_loads := (\<lambda>t. if t = bare_reply then Some bare_data else None)\<rparr>"

definition example_request :: llm_request where
  "example_request =
     \<lparr>llm_user_request = str ''Clean raw_customers'',
      llm_table_schema = example_schema (str ''raw_customers'') (str ''bronze''),
      llm_sample_data = \<lparr>result_columns = [str ''contact_id''], rows = [[CInt 1]]\<rparr>,
      llm_target_schema = str ''silver'', llm_catalog = str ''workspace''\<rparr>"

text \<open>
  Warehouses for the resolver: one where \<open>raw_customers\<close> is in bronze and in silver and
  bronze lists \<open>customers\<close> before it; one whose only table has \<open>raw_\<close> inside its
  name; one with no table; one whose bronze listing fails.
\<close>

definition two_copies_env :: env where
  "two_copies_env =
     example_env\<lparr>list_tables_answer :=
       (\<lambda>h sch. if sch = str ''bronze'' then Inr [str ''customers'', str ''raw_customers'']
                else if sch = str ''silver'' then Inr [str ''raw_customers''] else Inr [])\<rparr>"

definition infix_env :: env where
  "infix_env =
     example_env\<lparr>list_tables_answer :=
       (\<lambda>h sch. if sch = str ''bronze'' then Inr [str ''my_raw_orders''] else Inr [])\<rparr>"

definition empty_env :: env where
  "empty_env = example_env\<lparr>list_tables_answer := (\<lambda>h sch. Inr [])\<rparr>"

definition bronze_down_env :: env where
  "bronze_down_env =
     example_env\<lparr>list_tables_answer :=
       (\<lambda>h sch. if sch = str ''bronze'' then Inl (ServiceError (str ''SCHEMA_NOT_FOUND''))
                else if sch = str ''silver'' then Inr [str ''customers''] else Inr [])\<rparr>"

definition layered_env :: env where
  "layered_env =
     example_env\<lparr>list_tables_answer :=
       (\<lambda>h sch. if sch = str ''bronze'' then Inr [str ''raw_orders'']
                else if sch = str ''silver'' then Inr [str ''customers''] else Inr [])\<rparr>"

text \<open>
  Two more warehouses for the resolver: one whose bronze listing fails, whose silver layer
  holds no table that matches and whose gold layer holds \<open>customer_totals\<close>; and one
  whose three layers are empty and whose schema \<open>archive\<close> holds the table \<open>Orders\<close>.
\<close>

definition gold_env :: env where
  "gold_env =
     example_env\<lparr>list_tables_answer :=
       (\<lambda>h sch. if sch = str ''bronze'' then Inl (ServiceError (str ''SCHEMA_NOT_FOUND''))
                else if sch = str ''silver'' then Inr [str ''raw_orders'']
                else Inr [str ''customer_totals''])\<rparr>"

definition archive_env :: env where
  "archive_env =
     example_env\<lparr>list_tables_answer :=
       (\<lambda>h sch. if sch = str ''archive'' then Inr [str ''Orders''] else Inr [])\<rparr>"

text \<open>
  The example warehouse when it refuses the schema of any table but
  \<open>bronze.raw_customers\<close>, and an idle session that remembers that table.
\<close>

definition strict_env :: env where
  "strict_env =
     example_env\<lparr>get_table_schema_answer :=
       (\<lambda>h tbl sch. if tbl = str ''raw_customers'' \<and> sch = str ''bronze''
                    then Inr (example_schema tbl sch)
                    else Inl (ServiceError (str ''TABLE_OR_VIEW_NOT_FOUND'')))\<rparr>"

definition example_idle :: session where
  "example_idle =
     \<lparr>state = IDLE, pending_transform = None, last_result = None,
      last_mentioned_table = Some (str ''raw_customers'', str ''bronze'')\<rparr>"

section \<open>The conditions of the specification\<close>

text \<open>
  The two tests that the inner loop of \<open>_identify_table\<close> makes on a table, as one
  predicate, and what the loop over one layer comes to: the first table of the listing
  that passes the tests, or nothing when no table passes or the listing raises.
\<close>

definition table_matches :: "unicode_db \<Rightarrow> pystr \<Rightarrow> pystr \<Rightarrow> bool" where
  "table_matches U request_lower t \<longleftrightarrow>
     contains (lower U t) request_lower \<or>
     (contains (clean_name U t) request_lower \<and> length (clean_name U t) > 2)"

definition layer_match :: "env \<Rightarrow> pystr \<Rightarrow> history \<Rightarrow> pystr \<Rightarrow> pystr option" where
  "layer_match E request_lower h sch =
     (case list_tables_answer E h sch of
        Inl e \<Rightarrow> None
      | Inr tables \<Rightarrow> find (table_matches (unicode E) request_lower) tables)"

text \<open>
  The same test in the words of the specification: the name occurs in the message, or the
  name with a prefix \<open>raw_\<close> or \<open>stg_\<close> stripped is longer than 2 characters and occurs
  in it.
\<close>

definition spec_stem :: "unicode_db \<Rightarrow> pystr \<Rightarrow> pystr" where
  "spec_stem U t =
     (if prefix (str ''raw_'') (lower U t) then drop 4 (lower U t)
      else if prefix (str ''stg_'') (lower U t) then drop 4 (lower U t)
      else lower U t)"

definition spec_table_matches :: "unicode_db \<Rightarrow> pystr \<Rightarrow> pystr \<Rightarrow> bool" where
  "spec_table_matches U request_lower t \<longleftrightarrow>
     contains (lower U t) request_lower \<or>
     (contains (spec_stem U t) request_lower \<and> length (spec_stem U t) > 2)"

text \<open>
  The invariant that the specification gives for a plan, in its words: the SQL is a
  non-empty text and the target is a three-part dotted name.
\<close>

definition non_empty_sql :: "json \<Rightarrow> bool" where
  "non_empty_sql j = (case j of JStr q \<Rightarrow> q \<noteq> [] | _ \<Rightarrow> False)"

definition three_part_name :: "json \<Rightarrow> bool" where
  "three_part_name j =
     (case j of
        JStr n \<Rightarrow> length (split_sep (str ''.'') n) = 3 \<and> [] \<notin> set (split_sep (str ''.'') n)
      | _ \<Rightarrow> False)"

text \<open>Every word that \<open>chat\<close> compares a message with.\<close>

definition command_words :: "pystr list" where
  "command_words =
     help_words @ list_tables_words @ status_words @ confirm_words @ cancel_words @
     show_sql_words"

text \<open>
  Where a pair written to \<open>last_mentioned_table\<close> comes from.
  \<open>describe_command\<close>: outside the confirmation gate the message goes to
  \<open>_describe_table\<close>. \<open>resolved\<close>: the
  resolver returns the pair for the message. \<open>described\<close>: \<open>_describe_table\<close> writes
  the pair for a reference, which is either the two parts of a dotted reference, written
  before any look-up, or a bare name with the layer in which the probe found it.
\<close>

definition describe_command :: "env \<Rightarrow> pystr \<Rightarrow> bool" where
  "describe_command E m \<longleftrightarrow>
     prefix (str ''describe '') (lower (unicode E) (strip m)) \<or>
     prefix (str ''desc '') (lower (unicode E) (strip m))"

definition resolved :: "env \<Rightarrow> pystr \<Rightarrow> pystr \<times> pystr \<Rightarrow> bool" where
  "resolved E msg p \<longleftrightarrow> (\<exists>h h'. identify_table E msg h = (Inr (Some p), h'))"

definition described :: "env \<Rightarrow> pystr \<Rightarrow> pystr \<times> pystr \<Rightarrow> bool" where
  "described E table_ref p \<longleftrightarrow>
     reference_parts table_ref = [snd p, fst p] \<or>
     (reference_parts table_ref = [fst p] \<and>
      (\<exists>h h'. table_exists E (fst p) (snd p) h = (Inr True, h')))"

section \<open>The string operations and the matcher\<close>

lemma contains_iff_sublist: "contains n h \<longleftrightarrow> sublist n h"
  by (induction h) (auto simp: sublist_Cons_right)

lemma search_literal: "search_from (Lit l) s \<longleftrightarrow> contains l s"
  by (induction s) simp_all

lemma many_rems_suffix: "t \<in> set (many_rems c s) \<Longrightarrow> suffix t s"
  by (induction s) (auto simp: suffix_Cons split: if_splits)

lemma rems_suffix: "t \<in> set (rems r s) \<Longrightarrow> suffix t s"
proof (induction r arbitrary: s t)
  case (Lit l)
  then show ?case by (auto simp: suffix_drop split: if_splits)
next
  case (One c)
  then show ?case by (auto simp: suffix_Cons split: list.splits if_splits)
next
  case (Many c)
  then show ?case by (simp add: many_rems_suffix)
next
  case (Opt r)
  then show ?case by auto
next
  case (Alt a b)
  then show ?case by auto
next
  case (Cat a b)
  from Cat.prems obtain x where "x \<in> set (rems a s)" and "t \<in> set (rems b x)"
    by auto
  with Cat.IH have "suffix x s" and "suffix t x"
    by blast+
  then show ?case
    by (rule suffix_order.trans [rotated])
next
  case Eol
  then show ?case by (auto split: if_splits)
qed

lemma split_acc_not_empty: "split_acc sep cur s \<noteq> []"
  by (induction sep cur s rule: split_acc.induct)
     (subst split_acc.simps, simp del: split_acc.simps)

lemma split_acc_two:
  "sep \<noteq> [] \<Longrightarrow> contains sep s \<Longrightarrow> 2 \<le> length (split_acc sep cur s)"
proof (induction sep cur s rule: split_acc.induct)
  case (1 sep cur s)
  show ?case
  proof (cases s)
    case Nil
    with "1.prems" show ?thesis by (simp del: split_acc.simps)
  next
    case (Cons c cs)
    show ?thesis
    proof (cases "prefix sep s")
      case True
      have "Suc 0 \<le> length (split_acc sep [] (drop (length sep) s))"
        using split_acc_not_empty [of sep "[]" "drop (length sep) s"]
        by (simp del: split_acc.simps add: Suc_le_eq)
      with True Cons "1.prems" show ?thesis
        by (subst split_acc.simps) (simp del: split_acc.simps)
    next
      case False
      with Cons "1.prems" have "contains sep cs" by simp
      with False Cons "1.prems" "1.IH"(2) show ?thesis
        by (subst split_acc.simps) (simp del: split_acc.simps)
    qed
  qed
qed

text \<open>
  A text that holds a fence has a piece after it, so the two index reads of
  \<open>_parse_json_response\<close> never raise.
\<close>

lemma fenced_total:
  assumes "fence \<noteq> []" and "contains fence text"
  shows "\<exists>inner. fenced fence text = Inr inner"
proof -
  from split_acc_two [OF assms, of "[]"] have "1 < length (split_sep fence text)"
    by (simp add: split_sep_def del: split_acc.simps)
  moreover have "0 < length (split_sep (str ''```'') x)" for x
    using split_acc_not_empty [of "(str ''```'')" "[]" x]
    by (simp add: split_sep_def del: split_acc.simps)
  ultimately show ?thesis
    by (simp add: fenced_def py_index_def)
qed

section \<open>Frames of the handlers\<close>

lemma keeps_gate_refl: "keeps_gate s s"
  by (simp add: keeps_gate_def)

lemma keeps_gate_table: "keeps_gate s (s\<lparr>last_mentioned_table := Some p\<rparr>)"
  by (simp add: keeps_gate_def)

lemma keeps_gate_trans: "keeps_gate s s' \<Longrightarrow> keeps_gate s' s'' \<Longrightarrow> keeps_gate s s''"
  by (auto simp: keeps_gate_def)

lemma describe_resolved_frame:
  "describe_resolved E tbl sch s h = (r, s', h') \<Longrightarrow> keeps_gate s s'"
  by (auto simp: describe_resolved_def Let_def keeps_gate_def split: prod.splits sum.splits)

lemma describe_table_frame:
  "describe_table E ref s h = (r, s', h') \<Longrightarrow> keeps_gate s s'"
  by (auto simp: describe_table_def Let_def keeps_gate_refl
      split: prod.splits sum.splits option.splits if_splits
      dest: describe_resolved_frame)

lemma handle_question_frame:
  "handle_question E q s h = (r, s', h') \<Longrightarrow> keeps_gate s s'"
  unfolding handle_question_def Let_def
  by (auto simp: keeps_gate_refl keeps_gate_table
      split: prod.splits sum.splits if_splits
      dest!: describe_table_frame intro: keeps_gate_trans [OF keeps_gate_table])

lemma handle_unclear_intent_frame:
  "handle_unclear_intent E q s h = (r, s', h') \<Longrightarrow> keeps_gate s s'"
  unfolding handle_unclear_intent_def
  by (cases "fst (identify_table E q h)")
     (auto simp: keeps_gate_refl keeps_gate_def split: prod.splits sum.splits if_splits
           elim!: named.elims)

lemma handle_transform_request_frame:
  assumes "handle_transform_request E q s h = (r, s', h')"
  shows "last_result s' = last_result s \<and>
     (last_mentioned_table s' = last_mentioned_table s \<or> last_mentioned_table s' \<noteq> None) \<and>
     ((state s' = state s \<and> pending_transform s' = pending_transform s) \<or>
      (state s' = AWAITING_CONFIRMATION \<and> pending_transform s' \<noteq> None))"
  using assms unfolding handle_transform_request_def Let_def
  by (auto split: prod.splits sum.splits if_splits)

lemma execute_pending_transform_frame:
  assumes "execute_pending_transform E s h = (r, s', h')"
  shows "state s' = IDLE \<and> pending_transform s' = None \<and>
         last_mentioned_table s' = last_mentioned_table s"
proof (cases "pending_transform s")
  case None
  with assms show ?thesis by (auto simp: execute_pending_transform_def)
next
  case (Some p)
  with assms show ?thesis
    by (auto simp: execute_pending_transform_def Let_def execution_failed_def
        split: prod.splits sum.splits)
qed

lemma confirmation_gate_frame:
  assumes "confirmation_gate E um ml s h = (r, s', h')"
  shows "last_mentioned_table s' = last_mentioned_table s \<and>
         ((state s' = IDLE \<and> pending_transform s' = None) \<or> s' = s)"
  using assms execute_pending_transform_frame [of E s h r s' h']
  unfolding confirmation_gate_def cancel_pending_transform_def
  by (auto split: if_splits)

lemma chat_awaiting:
  assumes "chat E m s h = (r, s', h')" and "state s = AWAITING_CONFIRMATION"
  shows "last_mentioned_table s' = last_mentioned_table s \<and>
         ((state s' = IDLE \<and> pending_transform s' = None) \<or> s' = s)"
  using assms unfolding chat_def Let_def
  by (auto split: prod.splits dest: confirmation_gate_frame)

lemma chat_not_awaiting:
  assumes "chat E m s h = (r, s', h')" and "state s \<noteq> AWAITING_CONFIRMATION"
  shows "(last_mentioned_table s' = last_mentioned_table s \<or> last_mentioned_table s' \<noteq> None) \<and>
         ((state s' = state s \<and> pending_transform s' = pending_transform s) \<or>
          (state s' = AWAITING_CONFIRMATION \<and> pending_transform s' \<noteq> None))"
proof -
  let ?msg = "strip m"
  consider (fixed) "s' = s"
    | (desc) table_ref where "describe_table E table_ref s h = (r, s', h')"
    | (quest) h1 where "handle_question E ?msg s h1 = (r, s', h')"
    | (trans) h1 r1 where "handle_transform_request E ?msg s h1 = (r1, s', h')"
    | (unclear) h1 where "handle_unclear_intent E ?msg s h1 = (r, s', h')"
    using assms unfolding chat_def Let_def
    by (auto split: prod.splits sum.splits if_splits)
  then show ?thesis
  proof cases
    case fixed
    then show ?thesis by simp
  next
    case desc
    from describe_table_frame [OF this] show ?thesis by (simp add: keeps_gate_def)
  next
    case quest
    from handle_question_frame [OF this] show ?thesis by (simp add: keeps_gate_def)
  next
    case trans
    from handle_transform_request_frame [OF this] show ?thesis by simp
  next
    case unclear
    from handle_unclear_intent_frame [OF this] show ?thesis by (simp add: keeps_gate_def)
  qed
qed

lemma chat_inv:
  assumes "session_inv s" and "chat E m s h = (r, s', h')"
  shows "session_inv s'"
proof (cases "state s = AWAITING_CONFIRMATION")
  case True
  from chat_awaiting [OF assms(2) True] assms(1) show ?thesis
    by (auto simp: session_inv_def)
next
  case False
  from chat_not_awaiting [OF assms(2) False] assms(1) show ?thesis
    by (auto simp: session_inv_def)
qed

lemma chats_inv: "session_inv s \<Longrightarrow> session_inv (fst (chats E ms s h))"
proof (induction ms arbitrary: s h)
  case Nil
  then show ?case by simp
next
  case (Cons m ms)
  obtain r s' h' where c: "chat E m s h = (r, s', h')"
    by (cases "chat E m s h") auto
  from chat_inv [OF Cons.prems c] have "session_inv s'" .
  from Cons.IH [OF this] c show ?case by simp
qed

lemma initial_session_inv: "session_inv initial_session"
  by (simp add: session_inv_def initial_session_def)

section \<open>The confirmation gate, proved\<close>

lemma gate_words_disjoint:
  "w \<in> set cancel_words \<Longrightarrow> w \<notin> set confirm_words"
  "w \<in> set show_sql_words \<Longrightarrow> w \<notin> set confirm_words"
  "w \<in> set show_sql_words \<Longrightarrow> w \<notin> set cancel_words"
proof -
  have "list_all (\<lambda>w. w \<notin> set confirm_words) cancel_words"
    and "list_all (\<lambda>w. w \<notin> set confirm_words \<and> w \<notin> set cancel_words) show_sql_words"
    by code_simp+
  then show "w \<in> set cancel_words \<Longrightarrow> w \<notin> set confirm_words"
    and "w \<in> set show_sql_words \<Longrightarrow> w \<notin> set confirm_words"
    and "w \<in> set show_sql_words \<Longrightarrow> w \<notin> set cancel_words"
    unfolding list_all_iff by blast+
qed

lemma execute_pending_transform_once:
  assumes "pending_transform s = Some p"
  shows "\<exists>r s' h'. execute_pending_transform E s h = (r, s', h') \<and>
           pending_transform s' = None \<and> state s' = IDLE \<and>
           (h' = h @ [ExecuteCommand (sql (plan p))] \<or>
            h' = h @ [ExecuteCommand (sql (plan p)), CountRows (target_table (plan p))])"
  using assms
  by (auto simp: execute_pending_transform_def Let_def execution_failed_def execute_command_def
      count_rows_def split: prod.splits sum.splits)

lemma chat_gate:
  "state s = AWAITING_CONFIRMATION \<Longrightarrow>
   chat E m s h = (case confirmation_gate E m (lower (unicode E) (strip m)) s h of (r, s', h') \<Rightarrow> (Inr r, s', h'))"
  by (simp add: chat_def Let_def)

lemma show_sql_repeated:
  assumes "state s = AWAITING_CONFIRMATION"
    and "\<forall>m \<in> set ms. lower (unicode E) (strip m) \<in> set show_sql_words"
  shows "chats E ms s h = (s, h)"
  using assms(2)
proof (induction ms)
  case Nil
  then show ?case by simp
next
  case (Cons m ms)
  then have "lower (unicode E) (strip m) \<in> set show_sql_words" by simp
  then have "chat E m s h = (Inr (show_pending_sql s), s, h)"
    using assms(1) gate_words_disjoint(2,3) [of "lower (unicode E) (strip m)"]
    by (simp add: chat_gate confirmation_gate_def)
  with Cons show ?case by simp
qed

text \<open>
  C1. In a session that awaits confirmation of a pending plan, a message whose stripped,
  lower-cased text is a confirm word runs the plan's SQL as a command exactly once (the
  only other call is the row count of the target), clears the pending transform and ends
  in \<open>IDLE\<close>; a cancel word clears the pending transform, ends in \<open>IDLE\<close> and calls
  nothing; \<open>show sql\<close> or \<open>sql\<close> returns the plan's SQL and changes neither the session
  nor the history, however often it is sent; every other message, such as \<open>help\<close> or
  \<open>show tables\<close>, returns the fixed prompt and changes nothing.
\<close>

theorem confirmation_responses:
  assumes "state s = AWAITING_CONFIRMATION" and "pending_transform s = Some p"
  shows
    "(lower (unicode E) (strip m) \<in> set [str ''confirm'', str ''yes'', str ''y'', str ''execute'', str ''run''] \<longrightarrow>
        (\<exists>r s' h'. chat E m s h = (Inr r, s', h') \<and>
           pending_transform s' = None \<and> state s' = IDLE \<and>
           (h' = h @ [ExecuteCommand (sql (plan p))] \<or>
            h' = h @ [ExecuteCommand (sql (plan p)), CountRows (target_table (plan p))]))) \<and>
     (lower (unicode E) (strip m) \<in> set [str ''cancel'', str ''no'', str ''n'', str ''abort''] \<longrightarrow>
        chat E m s h =
          (Inr TransformCancelled, s\<lparr>pending_transform := None, state := IDLE\<rparr>, h)) \<and>
     (lower (unicode E) (strip m) \<in> set [str ''show sql'', str ''sql''] \<longrightarrow>
        chat E m s h = (Inr (PendingSql (sql (plan p))), s, h)) \<and>
     (lower (unicode E) (strip m) \<notin> set [str ''confirm'', str ''yes'', str ''y'', str ''execute'', str ''run''] \<and>
      lower (unicode E) (strip m) \<notin> set [str ''cancel'', str ''no'', str ''n'', str ''abort''] \<and>
      lower (unicode E) (strip m) \<notin> set [str ''show sql'', str ''sql''] \<longrightarrow>
        chat E m s h = (Inr ConfirmOrCancel, s, h)) \<and>
     ((\<forall>m' \<in> set ms. lower (unicode E) (strip m') \<in> set [str ''show sql'', str ''sql'']) \<longrightarrow>
        chats E ms s h = (s, h))"
  unfolding confirm_words_def [symmetric] cancel_words_def [symmetric]
    show_sql_words_def [symmetric]
proof (intro conjI impI)
  assume "lower (unicode E) (strip m) \<in> set confirm_words"
  then show "\<exists>r s' h'. chat E m s h = (Inr r, s', h') \<and>
           pending_transform s' = None \<and> state s' = IDLE \<and>
           (h' = h @ [ExecuteCommand (sql (plan p))] \<or>
            h' = h @ [ExecuteCommand (sql (plan p)), CountRows (target_table (plan p))])"
    using execute_pending_transform_once [OF assms(2), of E h] assms(1)
    by (auto simp: chat_gate confirmation_gate_def)
next
  assume "lower (unicode E) (strip m) \<in> set cancel_words"
  then show "chat E m s h =
          (Inr TransformCancelled, s\<lparr>pending_transform := None, state := IDLE\<rparr>, h)"
    using assms(1) gate_words_disjoint(1) [of "lower (unicode E) (strip m)"]
    by (simp add: chat_gate confirmation_gate_def cancel_pending_transform_def)
next
  assume "lower (unicode E) (strip m) \<in> set show_sql_words"
  then show "chat E m s h = (Inr (PendingSql (sql (plan p))), s, h)"
    using assms gate_words_disjoint(2,3) [of "lower (unicode E) (strip m)"]
    by (simp add: chat_gate confirmation_gate_def show_pending_sql_def)
next
  assume "lower (unicode E) (strip m) \<notin> set confirm_words \<and> lower (unicode E) (strip m) \<notin> set cancel_words \<and>
      lower (unicode E) (strip m) \<notin> set show_sql_words"
  then show "chat E m s h = (Inr ConfirmOrCancel, s, h)"
    using assms(1)
    by (simp add: chat_gate confirmation_gate_def handle_confirmation_unclear_def)
next
  assume "\<forall>m' \<in> set ms. lower (unicode E) (strip m') \<in> set show_sql_words"
  with assms(1) show "chats E ms s h = (s, h)"
    by (rule show_sql_repeated)
qed

theorem confirmation_responses_witness:
  "(\<exists>r s' h'. chat example_env (str '' YES'' @ [0xA0]) example_awaiting [] = (Inr r, s', h') \<and>
       pending_transform s' = None \<and> state s' = IDLE \<and>
       (h' = [] @ [ExecuteCommand (sql (plan example_pending))] \<or>
        h' = [] @ [ExecuteCommand (sql (plan example_pending)),
                   CountRows (target_table (plan example_pending))])) \<and>
   chat example_env (str ''Cancel'') example_awaiting [] =
     (Inr TransformCancelled, example_awaiting\<lparr>pending_transform := None, state := IDLE\<rparr>, []) \<and>
   chat example_env (str ''Show SQL'') example_awaiting [] =
     (Inr (PendingSql (sql (plan example_pending))), example_awaiting, []) \<and>
   chat example_env (str ''help'') example_awaiting [] = (Inr ConfirmOrCancel, example_awaiting, []) \<and>
   chat example_env (str ''show tables'') example_awaiting [] =
     (Inr ConfirmOrCancel, example_awaiting, []) \<and>
   chats example_env [str ''sql'', str '' SHOW SQL'', str ''Sql''] example_awaiting [] = (example_awaiting, [])"
proof -
  have st: "state example_awaiting = AWAITING_CONFIRMATION"
    and pe: "pending_transform example_awaiting = Some example_pending"
    by (simp_all add: example_awaiting_def)
  note T = confirmation_responses [OF st pe]
  have w1: "lower (unicode example_env) (strip (str '' YES'' @ [0xA0])) \<in> set [str ''confirm'', str ''yes'', str ''y'', str ''execute'', str ''run'']"
    by code_simp
  have w2: "lower (unicode example_env) (strip (str ''Cancel'')) \<in> set [str ''cancel'', str ''no'', str ''n'', str ''abort'']"
    by code_simp
  have w3: "lower (unicode example_env) (strip (str ''Show SQL'')) \<in> set [str ''show sql'', str ''sql'']"
    by code_simp
  have w4: "lower (unicode example_env) (strip (str ''help'')) \<notin> set [str ''confirm'', str ''yes'', str ''y'', str ''execute'', str ''run''] \<and>
            lower (unicode example_env) (strip (str ''help'')) \<notin> set [str ''cancel'', str ''no'', str ''n'', str ''abort''] \<and>
            lower (unicode example_env) (strip (str ''help'')) \<notin> set [str ''show sql'', str ''sql'']"
    by code_simp
  have w5: "lower (unicode example_env) (strip (str ''show tables'')) \<notin> set [str ''confirm'', str ''yes'', str ''y'', str ''execute'', str ''run''] \<and>
            lower (unicode example_env) (strip (str ''show tables'')) \<notin> set [str ''cancel'', str ''no'', str ''n'', str ''abort''] \<and>
            lower (unicode example_env) (strip (str ''show tables'')) \<notin> set [str ''show sql'', str ''sql'']"
    by code_simp
  have w6: "\<forall>m' \<in> set [str ''sql'', str '' SHOW SQL'', str ''Sql'']. lower (unicode example_env) (strip m') \<in> set [str ''show sql'', str ''sql'']"
    by code_simp
  show ?thesis
    using T [where m = "str '' YES'' @ [0xA0]" and E = example_env and h = "[]", THEN conjunct1, rule_format, OF w1]
      T [where m = "str ''Cancel''" and E = example_env and h = "[]", THEN conjunct2, THEN conjunct1, rule_format, OF w2]
      T [where m = "str ''Show SQL''" and E = example_env and h = "[]", THEN conjunct2, THEN conjunct2, THEN conjunct1,
         rule_format, OF w3]
      T [where m = "str ''help''" and E = example_env and h = "[]", THEN conjunct2, THEN conjunct2, THEN conjunct2,
         THEN conjunct1, rule_format, OF w4]
      T [where m = "str ''show tables''" and E = example_env and h = "[]", THEN conjunct2, THEN conjunct2, THEN conjunct2,
         THEN conjunct1, rule_format, OF w5]
      T [where E = example_env and h = "[]" and ms = "[str ''sql'', str '' SHOW SQL'', str ''Sql'']", THEN conjunct2,
         THEN conjunct2, THEN conjunct2, THEN conjunct2, THEN mp, OF w6]
    by blast
qed

section \<open>The session invariant\<close>

text \<open>
  C2. After every turn of every conversation that starts from a fresh agent, whatever the
  warehouse and the model answer, a transform is pending if and only if the state is
  \<open>AWAITING_CONFIRMATION\<close>, and the state is not \<open>EXECUTING\<close>: that state is set and
  left inside \<open>_execute_pending_transform\<close>.
\<close>

theorem session_invariant: "session_inv (fst (chats E ms initial_session h))"
  by (rule chats_inv [OF initial_session_inv])

section \<open>The table mentioned last\<close>

lemma probe_layers_found:
  "probe_layers E tbl schs h = (Inr (Some sch), h') \<Longrightarrow>
   \<exists>h0 h1. table_exists E tbl sch h0 = (Inr True, h1)"
proof (induction schs arbitrary: h)
  case Nil
  then show ?case by simp
next
  case (Cons a schs)
  obtain x h1 where t: "table_exists E tbl a h = (x, h1)"
    by (cases "table_exists E tbl a h") auto
  show ?case
  proof (cases x)
    case (Inl e)
    with t Cons.prems show ?thesis by simp
  next
    case (Inr ex)
    show ?thesis
    proof (cases ex)
      case True
      with Inr t Cons.prems have "a = sch" by simp
      with True Inr t have "table_exists E tbl sch h = (Inr True, h1)" by simp
      then show ?thesis by blast
    next
      case False
      with Inr t Cons.prems have "probe_layers E tbl schs h1 = (Inr (Some sch), h')" by simp
      then show ?thesis by (rule Cons.IH)
    qed
  qed
qed

lemma describe_resolved_writes:
  "describe_resolved E tbl sch s h = (r, s', h') \<Longrightarrow> last_mentioned_table s' = Some (tbl, sch)"
  by (auto simp: describe_resolved_def Let_def split: prod.splits sum.splits)

lemma describe_table_writes:
  assumes "describe_table E table_ref s h = (r, s', h')"
  shows "last_mentioned_table s' = last_mentioned_table s \<or>
         (\<exists>p. last_mentioned_table s' = Some p \<and> described E table_ref p)"
proof -
  define parts where "parts = reference_parts table_ref"
  consider (two) "length parts = 2" | (one) "length parts = 1"
    | (other) "length parts \<noteq> 2" "length parts \<noteq> 1"
    by blast
  then show ?thesis
  proof cases
    case two
    then obtain a b where ab: "parts = [a, b]"
      by (cases parts; cases "tl parts"; cases "tl (tl parts)") auto
    with assms obtain r' where "describe_resolved E b a s h = (r', s', h')"
      by (auto simp: describe_table_def parts_def [symmetric] split: prod.splits)
    then have "last_mentioned_table s' = Some (b, a)"
      by (rule describe_resolved_writes)
    moreover have "described E table_ref (b, a)"
      by (simp add: described_def parts_def [symmetric] ab)
    ultimately show ?thesis by blast
  next
    case one
    then obtain a where a: "parts = [a]"
      by (cases parts; cases "tl parts") auto
    obtain x h1 where p: "probe_layers E a layers h = (x, h1)"
      by (cases "probe_layers E a layers h") auto
    show ?thesis
    proof (cases x)
      case (Inl e)
      with assms a p show ?thesis
        by (simp add: describe_table_def parts_def [symmetric])
    next
      case (Inr found)
      show ?thesis
      proof (cases found)
        case None
        with Inr assms a p show ?thesis
          by (simp add: describe_table_def parts_def [symmetric])
      next
        case (Some sch)
        with Inr assms a p obtain r' where "describe_resolved E a sch s h1 = (r', s', h')"
          by (auto simp: describe_table_def parts_def [symmetric] split: prod.splits)
        then have "last_mentioned_table s' = Some (a, sch)"
          by (rule describe_resolved_writes)
        moreover from Some Inr p have "\<exists>h0 h1. table_exists E a sch h0 = (Inr True, h1)"
          by (intro probe_layers_found [of E a layers h sch h1]) simp
        then have "described E table_ref (a, sch)"
          by (simp add: described_def parts_def [symmetric] a)
        ultimately show ?thesis by blast
      qed
    qed
  next
    case other
    with assms show ?thesis
      by (simp add: describe_table_def parts_def [symmetric])
  qed
qed

lemma recall_cases:
  "recall triggers txt s found = found \<or> recall triggers txt s found = last_mentioned_table s"
  by (simp add: recall_def)

lemma named_some: "named found \<Longrightarrow> found = Some (fst (the found), snd (the found))"
  by (cases found) auto

lemma handle_unclear_intent_writes:
  assumes "handle_unclear_intent E q s h = (r, s', h')"
  shows "last_mentioned_table s' = last_mentioned_table s \<or>
         (\<exists>p. last_mentioned_table s' = Some p \<and> resolved E q p)"
proof -
  obtain x h1 where i: "identify_table E q h = (x, h1)"
    by (cases "identify_table E q h") auto
  show ?thesis
  proof (cases x)
    case (Inl e)
    with i assms show ?thesis by (simp add: handle_unclear_intent_def)
  next
    case (Inr found)
    show ?thesis
    proof (cases "named found")
      case True
      then obtain p where p: "found = Some p" by (cases found) auto
      with Inr i have "resolved E q p" by (auto simp: resolved_def)
      moreover from True p Inr i assms have "last_mentioned_table s' = Some p"
        by (auto simp: handle_unclear_intent_def)
      ultimately show ?thesis by blast
    next
      case False
      with Inr i assms show ?thesis by (auto simp: handle_unclear_intent_def)
    qed
  qed
qed

lemma handle_transform_request_writes:
  assumes "handle_transform_request E q s h = (r, s', h')"
  shows "last_mentioned_table s' = last_mentioned_table s \<or>
         (\<exists>p. last_mentioned_table s' = Some p \<and> resolved E q p)"
proof -
  obtain x h1 where i: "identify_table E q h = (x, h1)"
    by (cases "identify_table E q h") auto
  show ?thesis
  proof (cases x)
    case (Inl e)
    with i assms show ?thesis by (simp add: handle_transform_request_def)
  next
    case (Inr found)
    let ?f = "recall [str ''this table'', str ''that table'', str ''the table'', str ''it '']
                (lower (unicode E) q) s found"
    show ?thesis
    proof (cases "named ?f")
      case False
      with Inr i assms show ?thesis
        by (auto simp: handle_transform_request_def split: prod.splits)
    next
      case True
      then obtain p where p: "?f = Some p" by (cases ?f) auto
      with True Inr i assms have w: "last_mentioned_table s' = Some p"
        unfolding handle_transform_request_def Let_def
        by (auto split: prod.splits sum.splits)
      from recall_cases [of _ "lower (unicode E) q" s found] p
      consider "found = Some p" | "last_mentioned_table s = Some p"
        by metis
      then show ?thesis
      proof cases
        case 1
        with Inr i have "resolved E q p" by (auto simp: resolved_def)
        with w show ?thesis by blast
      next
        case 2
        with w show ?thesis by simp
      qed
    qed
  qed
qed

lemma handle_question_writes:
  assumes "handle_question E q s h = (r, s', h')"
  shows "last_mentioned_table s' = last_mentioned_table s \<or>
         (\<exists>p. last_mentioned_table s' = Some p \<and>
            (resolved E q p \<or>
             (\<exists>p'. (resolved E q p' \<or> last_mentioned_table s = Some p') \<and>
                   described E (snd p' @ str ''.'' @ fst p') p)))"
proof -
  obtain x h1 where i: "identify_table E q h = (x, h1)"
    by (cases "identify_table E q h") auto
  show ?thesis
  proof (cases x)
    case (Inl e)
    with i assms show ?thesis by (simp add: handle_question_def)
  next
    case (Inr found)
    let ?f = "recall [str ''this table'', str ''that table'', str ''the table'', str ''it'']
                (lower (unicode E) q) s found"
    show ?thesis
    proof (cases "named ?f")
      case False
      with Inr i assms show ?thesis
        unfolding handle_question_def Let_def
        by (auto split: prod.splits if_splits)
    next
      case True
      then obtain p' where p': "?f = Some p'" by (cases ?f) auto
      from recall_cases [of _ "lower (unicode E) q" s found] p'
      have src: "found = Some p' \<or> last_mentioned_table s = Some p'"
        by metis
      with Inr i have origin: "resolved E q p' \<or> last_mentioned_table s = Some p'"
        by (auto simp: resolved_def)
      from True p' Inr i assms
      consider (same) "last_mentioned_table s' = last_mentioned_table s"
        | (pair) "last_mentioned_table s' = Some p'"
        | (desc) r1 where "describe_table E (snd p' @ str ''.'' @ fst p')
                    (s\<lparr>last_mentioned_table := Some p'\<rparr>) h1 = (r1, s', h')"
        unfolding handle_question_def Let_def
        by (auto split: prod.splits if_splits)
      then show ?thesis
      proof cases
        case same
        then show ?thesis by simp
      next
        case pair
        with origin show ?thesis by auto
      next
        case desc
        from describe_table_writes [OF desc]
        consider "last_mentioned_table s' = Some p'"
          | p where "last_mentioned_table s' = Some p"
              "described E (snd p' @ str ''.'' @ fst p') p"
          by auto
        then show ?thesis
        proof cases
          case 1
          with origin show ?thesis by auto
        next
          case 2
          with origin show ?thesis by blast
        qed
      qed
    qed
  qed
qed

lemma describe_is_no_command:
  "list_all (\<lambda>w. \<not> prefix (str ''describe '') w \<and> \<not> prefix (str ''desc '') w)
     (help_words @ list_tables_words)"
  by code_simp

lemma chat_describe:
  assumes "state s \<noteq> AWAITING_CONFIRMATION" and "describe_command E m"
  shows "chat E m s h =
     (case after_first_space (strip m) of
        Inl e \<Rightarrow> (Inl e, s, h)
      | Inr table_name \<Rightarrow> describe_table E (strip table_name) s h)"
proof -
  let ?w = "lower (unicode E) (strip m)"
  from assms(2) have d: "prefix (str ''describe '') ?w \<or> prefix (str ''desc '') ?w"
    by (simp add: describe_command_def)
  with describe_is_no_command have "?w \<notin> set help_words" and "?w \<notin> set list_tables_words"
    unfolding list_all_iff by auto
  with d assms(1) show ?thesis
    by (simp add: chat_def Let_def)
qed

lemma chat_no_describe:
  assumes "chat E m s h = (r, s', h')" and "state s \<noteq> AWAITING_CONFIRMATION"
    and "\<not> describe_command E m"
  shows "last_mentioned_table s' = last_mentioned_table s \<or>
         (\<exists>p. last_mentioned_table s' = Some p \<and>
            (resolved E (strip m) p \<or>
             (\<exists>p'. (resolved E (strip m) p' \<or> last_mentioned_table s = Some p') \<and>
                   described E (snd p' @ str ''.'' @ fst p') p)))"
proof -
  let ?msg = "strip m"
  from assms(3) have nd: "\<not> prefix (str ''describe '') (lower (unicode E) ?msg)"
      "\<not> prefix (str ''desc '') (lower (unicode E) ?msg)"
    by (simp_all add: describe_command_def)
  consider (fixed) "s' = s"
    | (quest) h1 where "handle_question E ?msg s h1 = (r, s', h')"
    | (trans) h1 r1 where "handle_transform_request E ?msg s h1 = (r1, s', h')"
    | (unclear) h1 where "handle_unclear_intent E ?msg s h1 = (r, s', h')"
    using assms(1,2) nd unfolding chat_def Let_def
    by (auto split: prod.splits sum.splits if_splits)
  then show ?thesis
  proof cases
    case fixed
    then show ?thesis by simp
  next
    case quest
    from handle_question_writes [OF this] show ?thesis .
  next
    case trans
    from handle_transform_request_writes [OF this] show ?thesis by blast
  next
    case unclear
    from handle_unclear_intent_writes [OF this] show ?thesis by blast
  qed
qed

text \<open>
  C9, as the code has it. A turn leaves \<open>last_mentioned_table\<close> as it was or writes a
  pair to it; it never becomes \<open>None\<close> again; and no branch of the confirmation gate
  writes it, so a confirmed execution that succeeds, one that fails, and a cancellation
  all leave it naming the source table. The pair written need not be a table that was
  identified. A \<open>describe\<close> command writes the two parts of its dotted reference (the
  text after the first space) before it looks the table up, or a bare name with the layer
  in which the probe found it. Every
  other message writes the pair that the resolver returns for it, or what
  \<open>_describe_table\<close> makes of \<open>schema.table\<close> for the pair resolved or remembered.
\<close>

theorem last_mentioned_table_written:
  assumes "chat E m s h = (r, s', h')"
  shows "(state s = AWAITING_CONFIRMATION \<longrightarrow>
            last_mentioned_table s' = last_mentioned_table s) \<and>
         (last_mentioned_table s \<noteq> None \<longrightarrow> last_mentioned_table s' \<noteq> None) \<and>
         (describe_command E m \<longrightarrow>
            last_mentioned_table s' = last_mentioned_table s \<or>
            (\<exists>p table_name. last_mentioned_table s' = Some p \<and>
                 after_first_space (strip m) = Inr table_name \<and>
                 described E (strip table_name) p)) \<and>
         (\<not> describe_command E m \<longrightarrow>
            last_mentioned_table s' = last_mentioned_table s \<or>
            (\<exists>p. last_mentioned_table s' = Some p \<and>
               (resolved E (strip m) p \<or>
                (\<exists>p'. (resolved E (strip m) p' \<or> last_mentioned_table s = Some p') \<and>
                      described E (snd p' @ str ''.'' @ fst p') p))))"
proof (cases "state s = AWAITING_CONFIRMATION")
  case True
  from chat_awaiting [OF assms True] show ?thesis by simp
next
  case False
  have "last_mentioned_table s' = last_mentioned_table s \<or>
        (\<exists>p table_name. last_mentioned_table s' = Some p \<and>
             after_first_space (strip m) = Inr table_name \<and>
             described E (strip table_name) p)"
    if "describe_command E m"
  proof (cases "after_first_space (strip m)")
    case (Inl e)
    with chat_describe [OF False that, of h] assms show ?thesis by simp
  next
    case (Inr table_name)
    with chat_describe [OF False that, of h] assms
    have "describe_table E (strip table_name) s h = (r, s', h')" by simp
    from describe_table_writes [OF this] Inr show ?thesis by blast
  qed
  moreover note chat_no_describe [OF assms False]
  moreover from chat_not_awaiting [OF assms False]
  have "last_mentioned_table s \<noteq> None \<longrightarrow> last_mentioned_table s' \<noteq> None"
    by auto
  ultimately show ?thesis
    using False by blast
qed

theorem last_mentioned_table_written_witness:
  "last_mentioned_table (fst (snd (chat example_env (str ''confirm'') example_awaiting []))) =
     last_mentioned_table example_awaiting \<and>
   last_mentioned_table (fst (snd (chat failing_env (str ''confirm'') example_awaiting []))) \<noteq>
     None \<and>
   (last_mentioned_table
      (fst (snd (chat strict_env (str ''describe nosuch.thing'') example_idle []))) =
      last_mentioned_table example_idle \<or>
    (\<exists>p table_name. last_mentioned_table
           (fst (snd (chat strict_env (str ''describe nosuch.thing'') example_idle []))) =
           Some p \<and>
         after_first_space (strip (str ''describe nosuch.thing'')) = Inr table_name \<and>
         described strict_env (strip table_name) p)) \<and>
   (last_mentioned_table
      (fst (snd (chat example_env (str ''what is in raw_customers'') initial_session []))) =
      last_mentioned_table initial_session \<or>
    (\<exists>p. last_mentioned_table
           (fst (snd (chat example_env (str ''what is in raw_customers'') initial_session []))) =
           Some p \<and>
         (resolved example_env (strip (str ''what is in raw_customers'')) p \<or>
          (\<exists>p'. (resolved example_env (strip (str ''what is in raw_customers'')) p' \<or>
                 last_mentioned_table initial_session = Some p') \<and>
                described example_env (snd p' @ str ''.'' @ fst p') p))))"
proof -
  have T: "chat E m s [] =
      (fst (chat E m s []), fst (snd (chat E m s [])), snd (snd (chat E m s [])))" for E m s
    by simp
  have st: "state example_awaiting = AWAITING_CONFIRMATION"
    and lm: "last_mentioned_table example_awaiting \<noteq> None"
    by (simp_all add: example_awaiting_def)
  have d: "describe_command strict_env (str ''describe nosuch.thing'')"
    by code_simp
  have q: "\<not> describe_command example_env (str ''what is in raw_customers'')"
    by code_simp
  from last_mentioned_table_written [OF T, THEN conjunct1, rule_format, OF st]
    last_mentioned_table_written [OF T, THEN conjunct2, THEN conjunct1, rule_format, OF lm]
    last_mentioned_table_written [OF T, THEN conjunct2, THEN conjunct2, THEN conjunct1,
      THEN mp, OF d]
    last_mentioned_table_written [OF T, THEN conjunct2, THEN conjunct2, THEN conjunct2,
      THEN mp, OF q]
  show ?thesis by blast
qed

theorem last_mentioned_table_counterexample:
  "last_mentioned_table example_idle = Some (str ''raw_customers'', str ''bronze'') \<and>
   fst (chat strict_env (str ''describe nosuch.thing'') example_idle []) =
     Inr (ErrorDescribingTable (ServiceError (str ''TABLE_OR_VIEW_NOT_FOUND''))) \<and>
   last_mentioned_table
     (fst (snd (chat strict_env (str ''describe nosuch.thing'') example_idle []))) =
     Some (str ''thing'', str ''nosuch'') \<and>
   fst (list_tables strict_env (str ''nosuch'') []) = Inr [] \<and>
   fst (identify_table strict_env (str ''describe nosuch.thing'') []) = Inr None \<and>
   last_mentioned_table (fst (snd (chat strict_env (str ''describe .'') example_idle []))) =
     Some ([], [])"
  by code_simp

section \<open>The target-layer policy\<close>

text \<open>
  C5. For every request text and source schema the target layer is: gold when the
  lower-cased request contains "gold", whatever the source; otherwise silver when it
  contains "silver"; otherwise gold when it contains one of "aggregate", "summary",
  "report", "metrics"; otherwise silver for a bronze source, gold for a silver source and
  silver for any other source. The function reads the request text and the source schema
  only, so no reply of the language model can change its result.
\<close>

theorem determine_target_layer_policy:
  fixes U :: unicode_db and req src :: pystr
  defines "txt \<equiv> lower U req"
  defines "agg \<equiv> contains (str ''aggregate'') txt \<or> contains (str ''summary'') txt \<or>
                  contains (str ''report'') txt \<or> contains (str ''metrics'') txt"
  shows "(contains (str ''gold'') txt \<longrightarrow> determine_target_layer U req src = str ''gold'') \<and>
         (\<not> contains (str ''gold'') txt \<and> contains (str ''silver'') txt \<longrightarrow>
            determine_target_layer U req src = str ''silver'') \<and>
         (\<not> contains (str ''gold'') txt \<and> \<not> contains (str ''silver'') txt \<and> agg \<longrightarrow>
            determine_target_layer U req src = str ''gold'') \<and>
         (\<not> contains (str ''gold'') txt \<and> \<not> contains (str ''silver'') txt \<and> \<not> agg \<longrightarrow>
            determine_target_layer U req src =
              (if src = str ''bronze'' then str ''silver''
               else if src = str ''silver'' then str ''gold'' else str ''silver''))"
  unfolding txt_def agg_def
  by (simp add: determine_target_layer_def any_in_def)

theorem determine_target_layer_policy_witness:
  "determine_target_layer (unicode example_env) (str ''Aggregate sales into GOLD'') (str ''silver'') = str ''gold'' \<and>
   determine_target_layer (unicode example_env) (str ''clean raw_customers to Silver'') (str ''gold'') = str ''silver'' \<and>
   determine_target_layer (unicode example_env) (str ''monthly summary of orders'') (str ''bronze'') = str ''gold'' \<and>
   determine_target_layer (unicode example_env) (str ''dedupe customers'') (str ''silver'') = str ''gold''"
proof -
  have h1: "contains (str ''gold'') (lower (unicode example_env) (str ''Aggregate sales into GOLD''))"
    by code_simp
  have h2: "\<not> contains (str ''gold'') (lower (unicode example_env) (str ''clean raw_customers to Silver'')) \<and>
            contains (str ''silver'') (lower (unicode example_env) (str ''clean raw_customers to Silver''))"
    by code_simp
  have h3: "\<not> contains (str ''gold'') (lower (unicode example_env) (str ''monthly summary of orders'')) \<and>
            \<not> contains (str ''silver'') (lower (unicode example_env) (str ''monthly summary of orders'')) \<and>
            (contains (str ''aggregate'') (lower (unicode example_env) (str ''monthly summary of orders'')) \<or>
             contains (str ''summary'') (lower (unicode example_env) (str ''monthly summary of orders'')) \<or>
             contains (str ''report'') (lower (unicode example_env) (str ''monthly summary of orders'')) \<or>
             contains (str ''metrics'') (lower (unicode example_env) (str ''monthly summary of orders'')))"
    by code_simp
  have h4: "\<not> contains (str ''gold'') (lower (unicode example_env) (str ''dedupe customers'')) \<and>
            \<not> contains (str ''silver'') (lower (unicode example_env) (str ''dedupe customers'')) \<and>
            \<not> (contains (str ''aggregate'') (lower (unicode example_env) (str ''dedupe customers'')) \<or>
               contains (str ''summary'') (lower (unicode example_env) (str ''dedupe customers'')) \<or>
               contains (str ''report'') (lower (unicode example_env) (str ''dedupe customers'')) \<or>
               contains (str ''metrics'') (lower (unicode example_env) (str ''dedupe customers'')))"
    by code_simp
  note p = determine_target_layer_policy
  have a: "determine_target_layer (unicode example_env) (str ''Aggregate sales into GOLD'') (str ''silver'') = str ''gold''"
    using p [THEN conjunct1, rule_format, OF h1] .
  have b: "determine_target_layer (unicode example_env) (str ''clean raw_customers to Silver'') (str ''gold'') = str ''silver''"
    using p [THEN conjunct2, THEN conjunct1, rule_format, OF h2] .
  have c: "determine_target_layer (unicode example_env) (str ''monthly summary of orders'') (str ''bronze'') = str ''gold''"
    using p [THEN conjunct2, THEN conjunct2, THEN conjunct1, rule_format, OF h3] .
  have d: "determine_target_layer (unicode example_env) (str ''dedupe customers'') (str ''silver'') = str ''gold''"
  proof -
    have "(if str ''silver'' = str ''bronze'' then str ''silver''
           else if str ''silver'' = str ''silver'' then str ''gold'' else str ''silver'') = str ''gold''"
      by code_simp
    with p [THEN conjunct2, THEN conjunct2, THEN conjunct2, rule_format, OF h4,
        of "str ''silver''"]
    show ?thesis by (simp only:)
  qed
  from a b c d show ?thesis by simp
qed

section \<open>Failures\<close>

lemma contains_append: "contains n (a @ n @ b)"
  by (simp add: contains_iff_sublist)

lemma execution_failed_text_shows: "contains err (execution_failed_text err)"
proof -
  have "execution_failed_text err =
        (cross_mark @ str '' **Execution failed:**'' @ [newline, newline] @ backticks @ [newline]) @
        err @ ([newline] @ backticks @ [newline, newline] @
               (str ''Please check the SQL and try again.''))"
    by (simp add: execution_failed_text_def)
  then show ?thesis
    by (simp only: contains_append)
qed

lemma pending_sql_text_shows: "contains q (pending_sql_text q)"
proof -
  have "pending_sql_text q =
        (str ''## Generated SQL'' @ [newline] @ backticks @ str ''sql'' @ [newline]) @ q @
        ([newline] @ backticks @ [newline, newline] @
         (str ''**Commands:** `confirm` to execute, `cancel` to abort.'') @ [newline])"
    by (simp add: pending_sql_text_def)
  then show ?thesis
    by (simp only: contains_append)
qed

text \<open>
  The part of C4 that holds. When the command of the pending plan raises, or the row
  count after it, the turn ends in \<open>IDLE\<close> with no pending transform, the command was
  sent once, and the response is the failure text around the error's message.
\<close>

lemma execution_failure_returns_to_idle:
  assumes "pending_transform s = Some p"
    and "execute_command_answer E h (sql (plan p)) = Inl e \<or>
         count_rows_answer E (h @ [ExecuteCommand (sql (plan p))]) (target_table (plan p)) = Inl e"
  shows "\<exists>e' s' h'. execute_pending_transform E s h = (ExecutionFailed e', s', h') \<and>
           state s' = IDLE \<and> pending_transform s' = None \<and>
           (h' = h @ [ExecuteCommand (sql (plan p))] \<or>
            h' = h @ [ExecuteCommand (sql (plan p)), CountRows (target_table (plan p))])"
  using assms
  by (auto simp: execute_pending_transform_def Let_def execution_failed_def execute_command_def
      count_rows_def split: prod.splits sum.splits)

text \<open>
  C4. The claim fails on \<open>_handle_transform_request\<close>: the plan is stored and the state
  set before the confirmation text is formatted, inside the \<open>try\<close>, and the handler
  resets nothing. With a reply whose estimate is a text, the turn answers with the error
  and ends in \<open>AWAITING_CONFIRMATION\<close> with the plan pending, and the next message is
  taken for an answer to a confirmation that was never shown.
\<close>

theorem transform_request_error_leaves_plan_pending:
  "fst (chat worded_env (str ''Clean raw_customers'') initial_session []) =
     Inr (ErrorProcessingRequest ValueError) \<and>
   state (fst (snd (chat worded_env (str ''Clean raw_customers'') initial_session []))) =
     AWAITING_CONFIRMATION \<and>
   pending_transform (fst (snd (chat worded_env (str ''Clean raw_customers'') initial_session []))) \<noteq>
     None \<and>
   fst (chat worded_env (str ''Clean the raw_customers table'')
          (fst (snd (chat worded_env (str ''Clean raw_customers'') initial_session [])))
          (snd (snd (chat worded_env (str ''Clean raw_customers'') initial_session [])))) =
     Inr ConfirmOrCancel"
  by code_simp

section \<open>Plans are not validated\<close>

lemma build_plan_keys:
  assumes "map_of d (str ''target_table'') = Some tt" and "map_of d (str ''sql'') = Some q"
    and "estimated_impact d = Inr (est, cols)"
  shows "build_plan (JObj d) =
     Inr \<lparr>target_table = tt, sql = q,
          transformations_applied = dict_get d (str ''transformations_applied'') (JList []),
          explanation = dict_get d (str ''explanation'') (JStr []),
          estimated_rows_after = est, columns_modified = cols\<rparr>"
  using assms by (simp add: build_plan_def)

lemma build_plan_missing_key:
  assumes "map_of d (str ''target_table'') = None \<or> map_of d (str ''sql'') = None"
  shows "\<exists>e. build_plan (JObj d) = Inl e"
  using assms by (auto simp: build_plan_def split: sum.splits option.splits)

lemma execute_sends_stored_sql:
  assumes "pending_transform s = Some p"
  shows "\<exists>r s' rest. execute_pending_transform E s h =
           (r, s', h @ ExecuteCommand (sql (plan p)) # rest)"
  using execute_pending_transform_once [OF assms, of E h] by auto

text \<open>
  C3, as the code has it. A decoded reply becomes a plan as soon as it is an object with
  the keys \<open>target_table\<close> and \<open>sql\<close> (and an \<open>estimated_impact\<close> that, when present,
  is an object): the two values are stored as they are, whatever they are. A reply that
  lacks one of the two keys is an error. The stored SQL is sent to the warehouse on
  confirmation without any check.
\<close>

theorem plan_requires_keys_only:
  "(map_of d (str ''target_table'') = Some tt \<and> map_of d (str ''sql'') = Some q \<and>
      estimated_impact d = Inr (est, cols) \<longrightarrow>
        (\<exists>pl. build_plan (JObj d) = Inr pl \<and> target_table pl = tt \<and> sql pl = q)) \<and>
   (map_of d (str ''target_table'') = None \<or> map_of d (str ''sql'') = None \<longrightarrow>
        (\<exists>e. build_plan (JObj d) = Inl e)) \<and>
   (call_claude_answer E h req = Inr reply \<and> parse_json_response E reply = Inr data \<longrightarrow>
        fst (generate_transform_sql E req h) = build_plan data) \<and>
   (pending_transform s = Some p \<longrightarrow>
        (\<exists>r s' rest. execute_pending_transform E s h =
           (r, s', h @ ExecuteCommand (sql (plan p)) # rest)))"
proof (intro conjI impI)
  assume "map_of d (str ''target_table'') = Some tt \<and> map_of d (str ''sql'') = Some q \<and>
      estimated_impact d = Inr (est, cols)"
  then show "\<exists>pl. build_plan (JObj d) = Inr pl \<and> target_table pl = tt \<and> sql pl = q"
    by (simp add: build_plan_keys)
next
  assume "map_of d (str ''target_table'') = None \<or> map_of d (str ''sql'') = None"
  then show "\<exists>e. build_plan (JObj d) = Inl e"
    by (rule build_plan_missing_key)
next
  assume "call_claude_answer E h req = Inr reply \<and> parse_json_response E reply = Inr data"
  then show "fst (generate_transform_sql E req h) = build_plan data"
    by (simp add: generate_transform_sql_def call_claude_def)
next
  assume "pending_transform s = Some p"
  then show "\<exists>r s' rest. execute_pending_transform E s h =
           (r, s', h @ ExecuteCommand (sql (plan p)) # rest)"
    by (rule execute_sends_stored_sql)
qed

theorem plan_requires_keys_only_witness:
  "(\<exists>pl. build_plan example_data = Inr pl \<and>
          target_table pl = JStr (str ''workspace.silver.customers'') \<and> sql pl = JStr example_sql) \<and>
   (\<exists>e. build_plan (JObj [(str ''sql'', JStr example_sql)]) = Inl e) \<and>
   fst (generate_transform_sql example_env example_request []) = build_plan example_data \<and>
   (\<exists>r s' rest. execute_pending_transform example_env example_awaiting [] =
           (r, s', [] @ ExecuteCommand (sql (plan example_pending)) # rest))"
proof -
  note T = plan_requires_keys_only
  have k: "map_of [(str ''target_table'', JStr (str ''workspace.silver.customers'')),
                   (str ''sql'', JStr example_sql),
                   (str ''transformations_applied'', JList [JStr (str ''dedupe'')]),
                   (str ''estimated_impact'', JObj [(str ''estimated_rows_after'', JInt 96)])]
             (str ''target_table'') = Some (JStr (str ''workspace.silver.customers'')) \<and>
           map_of [(str ''target_table'', JStr (str ''workspace.silver.customers'')),
                   (str ''sql'', JStr example_sql),
                   (str ''transformations_applied'', JList [JStr (str ''dedupe'')]),
                   (str ''estimated_impact'', JObj [(str ''estimated_rows_after'', JInt 96)])]
             (str ''sql'') = Some (JStr example_sql) \<and>
           estimated_impact [(str ''target_table'', JStr (str ''workspace.silver.customers'')),
                   (str ''sql'', JStr example_sql),
                   (str ''transformations_applied'', JList [JStr (str ''dedupe'')]),
                   (str ''estimated_impact'', JObj [(str ''estimated_rows_after'', JInt 96)])] =
             Inr (JInt 96, JNull)"
    by code_simp
  have m: "map_of [(str ''sql'', JStr example_sql)] (str ''target_table'') = None \<or>
           map_of [(str ''sql'', JStr example_sql)] (str ''sql'') = None"
    by code_simp
  have g: "call_claude_answer example_env [] example_request = Inr example_reply \<and>
           parse_json_response example_env example_reply = Inr example_data"
    by code_simp
  have p: "pending_transform example_awaiting = Some example_pending"
    by (simp add: example_awaiting_def)
  from T [THEN conjunct1, rule_format, OF k]
    T [THEN conjunct2, THEN conjunct1, rule_format, OF m]
    T [THEN conjunct2, THEN conjunct2, THEN conjunct1, rule_format, OF g]
    T [THEN conjunct2, THEN conjunct2, THEN conjunct2, rule_format, OF p, of example_env "[]"]
  show ?thesis
    unfolding example_data_def [symmetric] by blast
qed

theorem plan_not_validated_counterexample:
  "fst (generate_transform_sql bare_env example_request []) =
     Inr \<lparr>target_table = JStr (str ''customers''), sql = JStr [],
          transformations_applied = JList [], explanation = JStr [],
          estimated_rows_after = JNull, columns_modified = JNull\<rparr> \<and>
   \<not> non_empty_sql (JStr []) \<and> \<not> three_part_name (JStr (str ''customers''))"
  by code_simp

section \<open>Question patterns come first\<close>

text \<open>
  C7. A message whose lower-cased text matches one of the question patterns is classified
  as a question, whatever else it matches and whatever the warehouse holds: no transform
  pattern is tried and no service is called. So it is for "describe how to clean this",
  which also matches the transform pattern \<open>clean\s\<close>, and for a message that
  opens with \<open>what\<close> and a no-break space, which \<open>\s\<close> accepts.
\<close>

theorem question_patterns_first:
  assumes "matches_any question_patterns (lower (unicode E) m)"
  shows "detect_intent E m h = (Inr QUESTION, h)"
  using assms by (simp add: detect_intent_def)

theorem question_patterns_first_witness:
  "matches_any transform_patterns
     (lower (unicode example_env) (str ''describe how to clean this'')) \<and>
   detect_intent example_env (str ''describe how to clean this'') [] = (Inr QUESTION, []) \<and>
   matches_any transform_patterns
     (lower (unicode example_env) (str ''what'' @ [0xA0] @ str ''now, clean it'')) \<and>
   detect_intent example_env (str ''what'' @ [0xA0] @ str ''now, clean it'') [] =
     (Inr QUESTION, [])"
proof -
  have q: "matches_any question_patterns
             (lower (unicode example_env) (str ''describe how to clean this''))"
    by code_simp
  have t: "matches_any transform_patterns
             (lower (unicode example_env) (str ''describe how to clean this''))"
    by code_simp
  have q': "matches_any question_patterns
              (lower (unicode example_env) (str ''what'' @ [0xA0] @ str ''now, clean it''))"
    by code_simp
  have t': "matches_any transform_patterns
              (lower (unicode example_env) (str ''what'' @ [0xA0] @ str ''now, clean it''))"
    by code_simp
  from t t' question_patterns_first [OF q, of "[]"] question_patterns_first [OF q', of "[]"]
  show ?thesis by simp
qed

section \<open>Table resolution\<close>

lemma scan_tables_find:
  "scan_tables U rl sch ts = map_option (\<lambda>t. (t, sch)) (find (table_matches U rl) ts)"
  by (induction ts) (simp_all add: table_matches_def)

lemma scan_schemas_hit:
  assumes "layer_match E rl h sch = Some t"
  shows "scan_schemas E rl (sch # schs) h = (Some (t, sch), h @ [ListTables sch])"
  using assms
  by (auto simp: layer_match_def list_tables_def scan_tables_find split: sum.splits)

lemma scan_schemas_pass:
  assumes "layer_match E rl h sch = None"
  shows "scan_schemas E rl (sch # schs) h = scan_schemas E rl schs (h @ [ListTables sch])"
  using assms
  by (auto simp: layer_match_def list_tables_def scan_tables_find split: sum.splits)

lemma identify_table_found:
  "scan_schemas E (lower (unicode E) req) layers h = (Some found, h') \<Longrightarrow>
   identify_table E req h = (Inr (Some found), h')"
  by (simp add: identify_table_def)

lemma identify_table_not_found:
  "scan_schemas E (lower (unicode E) req) layers h = (None, h') \<Longrightarrow>
   identify_table E req h =
     (case dotted_ref (unicode E) req of
        None \<Rightarrow> (Inr None, h')
      | Some (sch, tbl) \<Rightarrow>
          (case list_tables_answer E h' sch of
             Inl e \<Rightarrow> (Inl e, h' @ [ListTables sch])
           | Inr ts \<Rightarrow>
               (Inr (if tbl \<in> set ts then Some (tbl, sch) else None), h' @ [ListTables sch])))"
  by (simp add: identify_table_def table_exists_def list_tables_def
      split: option.splits sum.splits prod.splits)

text \<open>
  C6, as the code has it. The resolver lists bronze, then silver, then gold, and returns
  the first table, in the order of the listing, that the message matches: its lower-cased
  name occurs in the lower-cased message, or that name with every occurrence of \<open>raw_\<close>
  and then of \<open>stg_\<close> removed is longer than 2 characters and occurs in it. A layer
  whose listing raises counts as a layer without a match. So the result is the first
  match of bronze, whatever silver and gold hold; else the first match of silver,
  whatever gold holds; else the first match of gold. When no layer has a match the
  message is searched for a reference \<open>schema.table\<close>, in its own case: without one the
  result is nothing; with one, that schema is listed (an error of this listing leaves the
  resolver) and the result is the pair when the listing holds the table, and nothing
  otherwise.
\<close>

theorem table_resolution_order:
  fixes E :: env and req :: pystr and h :: history
  defines "rl \<equiv> lower (unicode E) req"
  defines "h1 \<equiv> h @ [ListTables (str ''bronze'')]"
  defines "h2 \<equiv> h @ [ListTables (str ''bronze''), ListTables (str ''silver'')]"
  defines "h3 \<equiv> h @ [ListTables (str ''bronze''), ListTables (str ''silver''),
                      ListTables (str ''gold'')]"
  shows
  "(table_matches U x t \<longleftrightarrow>
      contains (lower U t) x \<or>
      (contains (replace (str ''stg_'') [] (replace (str ''raw_'') [] (lower U t))) x \<and>
       length (replace (str ''stg_'') [] (replace (str ''raw_'') [] (lower U t))) > 2)) \<and>
   layer_match E x h0 sch =
     (case list_tables_answer E h0 sch of
        Inl e \<Rightarrow> None
      | Inr tables \<Rightarrow> find (table_matches (unicode E) x) tables) \<and>
   (layer_match E rl h (str ''bronze'') = Some t \<longrightarrow>
      identify_table E req h = (Inr (Some (t, str ''bronze'')), h1)) \<and>
   (layer_match E rl h (str ''bronze'') = None \<and>
    layer_match E rl h1 (str ''silver'') = Some t \<longrightarrow>
      identify_table E req h = (Inr (Some (t, str ''silver'')), h2)) \<and>
   (layer_match E rl h (str ''bronze'') = None \<and>
    layer_match E rl h1 (str ''silver'') = None \<and>
    layer_match E rl h2 (str ''gold'') = Some t \<longrightarrow>
      identify_table E req h = (Inr (Some (t, str ''gold'')), h3)) \<and>
   (layer_match E rl h (str ''bronze'') = None \<and>
    layer_match E rl h1 (str ''silver'') = None \<and>
    layer_match E rl h2 (str ''gold'') = None \<longrightarrow>
      identify_table E req h =
        (case dotted_ref (unicode E) req of
           None \<Rightarrow> (Inr None, h3)
         | Some (sch, tbl) \<Rightarrow>
             (case list_tables_answer E h3 sch of
                Inl e \<Rightarrow> (Inl e, h3 @ [ListTables sch])
              | Inr ts \<Rightarrow>
                  (Inr (if tbl \<in> set ts then Some (tbl, sch) else None),
                   h3 @ [ListTables sch]))))"
proof (intro conjI impI)
  show "table_matches U x t \<longleftrightarrow>
      contains (lower U t) x \<or>
      (contains (replace (str ''stg_'') [] (replace (str ''raw_'') [] (lower U t))) x \<and>
       length (replace (str ''stg_'') [] (replace (str ''raw_'') [] (lower U t))) > 2)"
    by (simp add: table_matches_def clean_name_def)
next
  show "layer_match E x h0 sch =
     (case list_tables_answer E h0 sch of
        Inl e \<Rightarrow> None
      | Inr tables \<Rightarrow> find (table_matches (unicode E) x) tables)"
    by (simp add: layer_match_def)
next
  assume "layer_match E rl h (str ''bronze'') = Some t"
  then show "identify_table E req h = (Inr (Some (t, str ''bronze'')), h1)"
    unfolding rl_def h1_def
    by (intro identify_table_found) (simp add: layers_def scan_schemas_hit del: scan_schemas.simps)
next
  assume "layer_match E rl h (str ''bronze'') = None \<and>
    layer_match E rl h1 (str ''silver'') = Some t"
  then show "identify_table E req h = (Inr (Some (t, str ''silver'')), h2)"
    unfolding rl_def h1_def h2_def
    by (intro identify_table_found)
       (simp add: layers_def scan_schemas_pass scan_schemas_hit del: scan_schemas.simps)
next
  assume "layer_match E rl h (str ''bronze'') = None \<and>
    layer_match E rl h1 (str ''silver'') = None \<and>
    layer_match E rl h2 (str ''gold'') = Some t"
  then show "identify_table E req h = (Inr (Some (t, str ''gold'')), h3)"
    unfolding rl_def h1_def h2_def h3_def
    by (intro identify_table_found)
       (simp add: layers_def scan_schemas_pass scan_schemas_hit del: scan_schemas.simps)
next
  assume "layer_match E rl h (str ''bronze'') = None \<and>
    layer_match E rl h1 (str ''silver'') = None \<and>
    layer_match E rl h2 (str ''gold'') = None"
  then have "scan_schemas E (lower (unicode E) req) layers h = (None, h3)"
    unfolding rl_def h1_def h2_def h3_def
    by (simp add: layers_def scan_schemas_pass del: scan_schemas.simps(2))
  then show "identify_table E req h =
        (case dotted_ref (unicode E) req of
           None \<Rightarrow> (Inr None, h3)
         | Some (sch, tbl) \<Rightarrow>
             (case list_tables_answer E h3 sch of
                Inl e \<Rightarrow> (Inl e, h3 @ [ListTables sch])
              | Inr ts \<Rightarrow>
                  (Inr (if tbl \<in> set ts then Some (tbl, sch) else None),
                   h3 @ [ListTables sch])))"
    by (rule identify_table_not_found)
qed

theorem table_resolution_order_witness:
  "identify_table two_copies_env (str ''clean up raw_customers'') [] =
     (Inr (Some (str ''customers'', str ''bronze'')), [] @ [ListTables (str ''bronze'')]) \<and>
   identify_table layered_env (str ''clean customers'') [] =
     (Inr (Some (str ''customers'', str ''silver'')),
      [] @ [ListTables (str ''bronze''), ListTables (str ''silver'')]) \<and>
   identify_table bronze_down_env (str ''clean customers'') [] =
     (Inr (Some (str ''customers'', str ''silver'')),
      [] @ [ListTables (str ''bronze''), ListTables (str ''silver'')]) \<and>
   identify_table gold_env (str ''show customer_totals'') [] =
     (Inr (Some (str ''customer_totals'', str ''gold'')),
      [] @ [ListTables (str ''bronze''), ListTables (str ''silver''), ListTables (str ''gold'')]) \<and>
   identify_table empty_env (str ''hello there'') [] =
     (Inr None,
      [] @ [ListTables (str ''bronze''), ListTables (str ''silver''), ListTables (str ''gold'')]) \<and>
   identify_table archive_env (str ''check archive.Orders'') [] =
     (Inr (Some (str ''Orders'', str ''archive'')),
      [ListTables (str ''bronze''), ListTables (str ''silver''), ListTables (str ''gold''),
       ListTables (str ''archive'')]) \<and>
   identify_table archive_env (str ''check archive.orders'') [] =
     (Inr None,
      [ListTables (str ''bronze''), ListTables (str ''silver''), ListTables (str ''gold''),
       ListTables (str ''archive'')])"
proof -
  note T = table_resolution_order [THEN conjunct2, THEN conjunct2]
  have a: "layer_match two_copies_env
             (lower (unicode two_copies_env) (str ''clean up raw_customers'')) []
             (str ''bronze'') = Some (str ''customers'')"
    by code_simp
  have b: "layer_match layered_env (lower (unicode layered_env) (str ''clean customers'')) []
             (str ''bronze'') = None \<and>
           layer_match layered_env (lower (unicode layered_env) (str ''clean customers''))
             ([] @ [ListTables (str ''bronze'')]) (str ''silver'') = Some (str ''customers'')"
    by code_simp
  have c: "layer_match bronze_down_env
             (lower (unicode bronze_down_env) (str ''clean customers'')) []
             (str ''bronze'') = None \<and>
           layer_match bronze_down_env
             (lower (unicode bronze_down_env) (str ''clean customers''))
             ([] @ [ListTables (str ''bronze'')]) (str ''silver'') = Some (str ''customers'')"
    by code_simp
  have d: "layer_match gold_env (lower (unicode gold_env) (str ''show customer_totals'')) []
             (str ''bronze'') = None \<and>
           layer_match gold_env (lower (unicode gold_env) (str ''show customer_totals''))
             ([] @ [ListTables (str ''bronze'')]) (str ''silver'') = None \<and>
           layer_match gold_env (lower (unicode gold_env) (str ''show customer_totals''))
             ([] @ [ListTables (str ''bronze''), ListTables (str ''silver'')]) (str ''gold'') =
             Some (str ''customer_totals'')"
    by code_simp
  have e: "layer_match empty_env (lower (unicode empty_env) (str ''hello there'')) []
             (str ''bronze'') = None \<and>
           layer_match empty_env (lower (unicode empty_env) (str ''hello there''))
             ([] @ [ListTables (str ''bronze'')]) (str ''silver'') = None \<and>
           layer_match empty_env (lower (unicode empty_env) (str ''hello there''))
             ([] @ [ListTables (str ''bronze''), ListTables (str ''silver'')]) (str ''gold'') =
             None"
    by code_simp
  have f: "layer_match archive_env (lower (unicode archive_env) m) []
             (str ''bronze'') = None \<and>
           layer_match archive_env (lower (unicode archive_env) m)
             ([] @ [ListTables (str ''bronze'')]) (str ''silver'') = None \<and>
           layer_match archive_env (lower (unicode archive_env) m)
             ([] @ [ListTables (str ''bronze''), ListTables (str ''silver'')]) (str ''gold'') =
             None" for m
    by code_simp
  have e': "(case dotted_ref (unicode empty_env) (str ''hello there'') of
           None \<Rightarrow> (Inr None, [] @ [ListTables (str ''bronze''), ListTables (str ''silver''),
                      ListTables (str ''gold'')])
         | Some (sch, tbl) \<Rightarrow>
             (case list_tables_answer empty_env ([] @ [ListTables (str ''bronze''),
                      ListTables (str ''silver''), ListTables (str ''gold'')]) sch of
                Inl e \<Rightarrow> (Inl e, ([] @ [ListTables (str ''bronze''), ListTables (str ''silver''),
                      ListTables (str ''gold'')]) @ [ListTables sch])
              | Inr ts \<Rightarrow>
                  (Inr (if tbl \<in> set ts then Some (tbl, sch) else None),
                   ([] @ [ListTables (str ''bronze''), ListTables (str ''silver''),
                      ListTables (str ''gold'')]) @ [ListTables sch]))) =
        (Inr None,
         [] @ [ListTables (str ''bronze''), ListTables (str ''silver''), ListTables (str ''gold'')])"
    by code_simp
  have f1: "(case dotted_ref (unicode archive_env) (str ''check archive.Orders'') of
           None \<Rightarrow> (Inr None, [] @ [ListTables (str ''bronze''), ListTables (str ''silver''),
                      ListTables (str ''gold'')])
         | Some (sch, tbl) \<Rightarrow>
             (case list_tables_answer archive_env ([] @ [ListTables (str ''bronze''),
                      ListTables (str ''silver''), ListTables (str ''gold'')]) sch of
                Inl e \<Rightarrow> (Inl e, ([] @ [ListTables (str ''bronze''), ListTables (str ''silver''),
                      ListTables (str ''gold'')]) @ [ListTables sch])
              | Inr ts \<Rightarrow>
                  (Inr (if tbl \<in> set ts then Some (tbl, sch) else None),
                   ([] @ [ListTables (str ''bronze''), ListTables (str ''silver''),
                      ListTables (str ''gold'')]) @ [ListTables sch]))) =
        (Inr (Some (str ''Orders'', str ''archive'')),
         [ListTables (str ''bronze''), ListTables (str ''silver''), ListTables (str ''gold''),
          ListTables (str ''archive'')])"
    by code_simp
  have f2: "(case dotted_ref (unicode archive_env) (str ''check archive.orders'') of
           None \<Rightarrow> (Inr None, [] @ [ListTables (str ''bronze''), ListTables (str ''silver''),
                      ListTables (str ''gold'')])
         | Some (sch, tbl) \<Rightarrow>
             (case list_tables_answer archive_env ([] @ [ListTables (str ''bronze''),
                      ListTables (str ''silver''), ListTables (str ''gold'')]) sch of
                Inl e \<Rightarrow> (Inl e, ([] @ [ListTables (str ''bronze''), ListTables (str ''silver''),
                      ListTables (str ''gold'')]) @ [ListTables sch])
              | Inr ts \<Rightarrow>
                  (Inr (if tbl \<in> set ts then Some (tbl, sch) else None),
                   ([] @ [ListTables (str ''bronze''), ListTables (str ''silver''),
                      ListTables (str ''gold'')]) @ [ListTables sch]))) =
        (Inr None,
         [ListTables (str ''bronze''), ListTables (str ''silver''), ListTables (str ''gold''),
          ListTables (str ''archive'')])"
    by code_simp
  note N = T [THEN conjunct2, THEN conjunct2, THEN conjunct2, rule_format]
  from T [THEN conjunct1, rule_format, OF a]
    T [THEN conjunct2, THEN conjunct1, rule_format, OF b]
    T [THEN conjunct2, THEN conjunct1, rule_format, OF c]
    T [THEN conjunct2, THEN conjunct2, THEN conjunct1, rule_format, OF d]
    N [OF e, unfolded e']
    N [OF f [of "str ''check archive.Orders''"], unfolded f1]
    N [OF f [of "str ''check archive.orders''"], unfolded f2]
  show ?thesis by blast
qed

theorem table_resolution_counterexample:
  "list_tables_answer two_copies_env [] (str ''bronze'') =
     Inr [str ''customers'', str ''raw_customers''] \<and>
   list_tables_answer two_copies_env [ListTables (str ''bronze'')] (str ''silver'') =
     Inr [str ''raw_customers''] \<and>
   contains (str ''raw_customers'') (str ''clean up raw_customers'') \<and>
   fst (identify_table two_copies_env (str ''clean up raw_customers'') []) =
     Inr (Some (str ''customers'', str ''bronze'')) \<and>
   \<not> spec_table_matches (unicode infix_env) (lower (unicode infix_env) (str ''show my_orders''))
        (str ''my_raw_orders'') \<and>
   fst (identify_table infix_env (str ''show my_orders'') []) =
     Inr (Some (str ''my_raw_orders'', str ''bronze''))"
  by code_simp

section \<open>What the classifier reads\<close>

lemma scan_schemas_listings:
  assumes "list_tables_answer E = list_tables_answer E'" and "unicode E = unicode E'"
  shows "scan_schemas E rl schs h = scan_schemas E' rl schs h"
  using assms
  by (induction schs arbitrary: h)
     (simp_all add: list_tables_def split: sum.splits option.splits)

lemma identify_table_listings:
  assumes "list_tables_answer E = list_tables_answer E'" and "unicode E = unicode E'"
  shows "identify_table E req h = identify_table E' req h"
  by (simp add: identify_table_def scan_schemas_listings [OF assms] table_exists_def
      list_tables_def assms [symmetric] split: prod.splits option.splits sum.splits)

text \<open>
  C8, as the code has it. The classifier takes the message and the services, and no field
  of the session. When the message matches a question pattern or a transform pattern the
  intent is that of the text alone and no service is called; otherwise the resolver is
  asked, and the intent is fixed by the text and by the answers of the warehouse to the
  table listings. (Two environments are compared under one interpreter: they lower-case
  alike.)
\<close>

theorem classifier_reads_text_and_listings:
  "(matches_any question_patterns (lower (unicode E) m) \<or>
    matches_any transform_patterns (lower (unicode E) m) \<longrightarrow>
      snd (detect_intent E m h) = h \<and>
      (unicode E' = unicode E \<longrightarrow>
         fst (detect_intent E m h) = fst (detect_intent E' m h'))) \<and>
   (list_tables_answer E = list_tables_answer E' \<and> unicode E = unicode E' \<longrightarrow>
      detect_intent E m h = detect_intent E' m h)"
proof (intro conjI impI)
  assume p: "matches_any question_patterns (lower (unicode E) m) \<or>
    matches_any transform_patterns (lower (unicode E) m)"
  then show "snd (detect_intent E m h) = h"
    by (auto simp: detect_intent_def Let_def)
  assume "unicode E' = unicode E"
  with p show "fst (detect_intent E m h) = fst (detect_intent E' m h')"
    by (auto simp: detect_intent_def Let_def)
next
  assume "list_tables_answer E = list_tables_answer E' \<and> unicode E = unicode E'"
  then show "detect_intent E m h = detect_intent E' m h"
    by (simp add: detect_intent_def Let_def identify_table_listings [of E E'])
qed

theorem classifier_reads_text_and_listings_witness:
  "snd (detect_intent example_env (str ''clean raw_customers'') []) = [] \<and>
   fst (detect_intent example_env (str ''clean raw_customers'') []) =
     fst (detect_intent empty_env (str ''clean raw_customers'') [ListTables (str ''gold'')]) \<and>
   detect_intent example_env (str ''fix raw_customers'') [] =
     detect_intent worded_env (str ''fix raw_customers'') []"
proof -
  have a: "matches_any question_patterns
             (lower (unicode example_env) (str ''clean raw_customers'')) \<or>
           matches_any transform_patterns
             (lower (unicode example_env) (str ''clean raw_customers''))"
    by code_simp
  have u: "unicode empty_env = unicode example_env"
    by (simp add: empty_env_def)
  have b: "list_tables_answer example_env = list_tables_answer worded_env \<and>
           unicode example_env = unicode worded_env"
    by (simp add: worded_env_def)
  from classifier_reads_text_and_listings [THEN conjunct1, rule_format, OF a]
    classifier_reads_text_and_listings [THEN conjunct1, rule_format, OF a, THEN conjunct2,
      rule_format, OF u]
    classifier_reads_text_and_listings [THEN conjunct2, rule_format, OF b]
  show ?thesis by blast
qed

theorem classifier_counterexample:
  "fst (detect_intent example_env (str ''fix raw_customers'') []) = Inr TRANSFORM \<and>
   fst (detect_intent empty_env (str ''fix raw_customers'') []) = Inr UNCLEAR"
  by code_simp

section \<open>Case and surrounding white space\<close>

lemma lower_char_dot: "lower_char c = full_stop \<longleftrightarrow> c = full_stop"
  by (simp add: lower_char_def full_stop_def)

lemma dot_lower:
  assumes "ascii x"
  shows "full_stop \<in> set (lower U x) \<longleftrightarrow> full_stop \<in> set x"
proof -
  have "full_stop \<in> lower_char ` set x \<longleftrightarrow> full_stop \<in> set x"
    using lower_char_dot by (metis imageE image_eqI)
  with assms show ?thesis by (simp add: lower_def)
qed

lemma dotted_ref_no_dot: "full_stop \<notin> set x \<Longrightarrow> dotted_ref U x = None"
proof (induction x)
  case Nil
  then show ?case by simp
next
  case (Cons c cs)
  define r where "r = dropWhile (is_word U) (c # cs)"
  have "set r \<subseteq> set (c # cs)"
    unfolding r_def by (rule subsetI) (rule set_dropWhileD)
  with Cons.prems have nd: "full_stop \<notin> set r"
    by blast
  have nomatch: "\<not> (case r of d # e # _ \<Rightarrow> d = full_stop \<and> is_word U e | _ \<Rightarrow> False)"
  proof (cases r)
    case Nil
    then show ?thesis by simp
  next
    case (Cons d r')
    with nd have "d \<noteq> full_stop" by auto
    with Cons show ?thesis by (cases r') simp_all
  qed
  have ih: "dotted_ref U cs = None"
    using Cons by simp
  have "dotted_ref U (c # cs) =
      (if takeWhile (is_word U) (c # cs) \<noteq> [] \<and>
          (case r of d # e # _ \<Rightarrow> d = full_stop \<and> is_word U e | _ \<Rightarrow> False)
       then Some (takeWhile (is_word U) (c # cs), takeWhile (is_word U) (tl r))
       else dotted_ref U cs)"
    unfolding r_def by (simp only: dotted_ref.simps Let_def)
  also have "\<dots> = None"
    using nomatch ih by (simp only: simp_thms if_False)
  finally show ?case .
qed

lemma identify_table_variant:
  assumes "lower (unicode E) a = lower (unicode E) b"
    and "full_stop \<notin> set a" and "full_stop \<notin> set b"
  shows "identify_table E a h = identify_table E b h"
  using assms by (simp add: identify_table_def dotted_ref_no_dot split: prod.splits option.splits)

lemma detect_intent_variant:
  assumes "lower (unicode E) a = lower (unicode E) b"
    and "full_stop \<notin> set a" and "full_stop \<notin> set b"
  shows "detect_intent E a h = detect_intent E b h"
  by (simp add: detect_intent_def Let_def assms(1) identify_table_variant [OF assms]
      split: prod.splits sum.splits)

lemma detect_intent_not_transform:
  assumes "\<not> matches_any transform_patterns (lower (unicode E) a)"
    and "\<not> any_in action_words (lower (unicode E) a)"
  shows "fst (detect_intent E a h) \<noteq> Inr TRANSFORM"
  using assms by (auto simp: detect_intent_def Let_def split: prod.splits sum.splits)

lemma handle_question_variant:
  assumes "lower (unicode E) a = lower (unicode E) b"
    and "full_stop \<notin> set a" and "full_stop \<notin> set b"
  shows "handle_question E a s h = handle_question E b s h"
  by (simp add: handle_question_def assms(1) identify_table_variant [OF assms])

lemma handle_unclear_intent_variant:
  assumes "lower (unicode E) a = lower (unicode E) b"
    and "full_stop \<notin> set a" and "full_stop \<notin> set b"
  shows "handle_unclear_intent E a s h = handle_unclear_intent E b s h"
  by (simp add: handle_unclear_intent_def identify_table_variant [OF assms])

lemma chat_variant:
  assumes m: "lower (unicode E) (strip m) = w"
    and md: "ascii (strip m) \<or> full_stop \<notin> set (strip m)"
    and w: "lower (unicode E) (strip w) = w"
    and db: "full_stop \<notin> set (strip w)"
    and dot: "full_stop \<notin> set w"
    and nt: "\<not> matches_any transform_patterns w" "\<not> any_in action_words w"
    and nd: "\<not> prefix (str ''describe '') w" "\<not> prefix (str ''desc '') w"
  shows "chat E m s h = chat E w s h"
proof (cases "state s = AWAITING_CONFIRMATION")
  case True
  then show ?thesis
    by (simp add: chat_def Let_def m w confirmation_gate_def handle_confirmation_unclear_def)
next
  case False
  let ?a = "strip m" and ?b = "strip w"
  have eq: "lower (unicode E) ?a = lower (unicode E) ?b" by (simp add: m w)
  have da: "full_stop \<notin> set ?a"
    using md dot dot_lower [of ?a "unicode E"] by (auto simp: m)
  note di = detect_intent_variant [OF eq da db, of h]
  have ntr: "fst (detect_intent E ?b h) \<noteq> Inr TRANSFORM"
    by (rule detect_intent_not_transform) (simp_all add: w nt)
  show ?thesis
  proof (cases "detect_intent E ?b h")
    case (Pair r h1)
    with ntr have r: "r \<noteq> Inr TRANSFORM" by simp
    show ?thesis
    proof (cases r)
      case (Inl e)
      with Pair di False show ?thesis
        by (simp add: chat_def Let_def m w nd)
    next
      case (Inr intent)
      with r have "intent \<noteq> TRANSFORM" by simp
      with Inr Pair di False show ?thesis
        by (simp add: chat_def Let_def m w nd
            handle_question_variant [OF eq da db] handle_unclear_intent_variant [OF eq da db])
    qed
  qed
qed

lemma command_words_plain:
  "list_all (\<lambda>w. lower U (strip w) = w \<and> full_stop \<notin> set (strip w) \<and> full_stop \<notin> set w \<and>
                 \<not> matches_any transform_patterns w \<and> \<not> any_in action_words w \<and>
                 \<not> prefix (str ''describe '') w \<and> \<not> prefix (str ''desc '') w) command_words"
  by code_simp

lemma command_words_list:
  "command_words =
     [str ''help'', str ''?'', str ''show tables'', str ''list tables'', str ''tables'',
      str ''status'', str ''state'', str ''confirm'', str ''yes'', str ''y'', str ''execute'',
      str ''run'', str ''cancel'', str ''no'', str ''n'', str ''abort'', str ''show sql'',
      str ''sql'']"
  by (simp add: command_words_def help_words_def list_tables_words_def status_words_def
      confirm_words_def cancel_words_def show_sql_words_def)

text \<open>
  C10. \<open>chat\<close> compares the stripped, lower-cased message with its command words and
  its confirmation words. So a message that differs from one of these words only in the
  case of its letters or in white space around it, of any of the kinds that \<open>strip\<close>
  removes, gets the same response, leaves the same session and makes the same calls as
  the word itself, in every state. Outside the confirmation gate the confirmation words
  reach the resolver, which looks for a dotted reference in the message as it was typed:
  the words hold no full stop, and neither does an ASCII text that lower-cases to one of
  them; for a text with code points outside ASCII, whose lower-casing is left to the
  Unicode database, this is asked for.
\<close>

theorem command_words_normalised:
  assumes "w \<in> set [str ''help'', str ''?'', str ''show tables'', str ''list tables'',
      str ''tables'', str ''status'', str ''state'', str ''confirm'', str ''yes'', str ''y'',
      str ''execute'', str ''run'', str ''cancel'', str ''no'', str ''n'', str ''abort'',
      str ''show sql'', str ''sql'']"
    and "lower (unicode E) (strip m) = w"
    and "ascii (strip m) \<or> full_stop \<notin> set (strip m)"
  shows "chat E m s h = chat E w s h"
proof -
  from assms(1) have "w \<in> set command_words"
    by (simp only: command_words_list)
  with command_words_plain [of "unicode E"] have
    "lower (unicode E) (strip w) = w \<and> full_stop \<notin> set (strip w) \<and> full_stop \<notin> set w \<and>
     \<not> matches_any transform_patterns w \<and> \<not> any_in action_words w \<and>
     \<not> prefix (str ''describe '') w \<and> \<not> prefix (str ''desc '') w"
    unfolding list_all_iff by blast
  with assms(2,3) show ?thesis
    by (intro chat_variant) simp_all
qed

theorem command_words_normalised_witness:
  "chat example_env ([0xA0] @ str ''  HeLP '' @ [0x85]) initial_session [] =
     chat example_env (str ''help'') initial_session [] \<and>
   chat example_env (str '' YES'' @ [0x3000]) example_awaiting [] =
     chat example_env (str ''yes'') example_awaiting [] \<and>
   chat example_env (str ''Show Tables'') initial_session [] =
     chat example_env (str ''show tables'') initial_session [] \<and>
   chat example_env (str ''SQL '') initial_session [] =
     chat example_env (str ''sql'') initial_session []"
proof -
  note T = command_words_normalised
  have a: "lower (unicode example_env) (strip ([0xA0] @ str ''  HeLP '' @ [0x85])) = str ''help''"
    and a': "ascii (strip ([0xA0] @ str ''  HeLP '' @ [0x85])) \<or>
             full_stop \<notin> set (strip ([0xA0] @ str ''  HeLP '' @ [0x85]))"
    by code_simp+
  have b: "lower (unicode example_env) (strip (str '' YES'' @ [0x3000])) = str ''yes''"
    and b': "ascii (strip (str '' YES'' @ [0x3000])) \<or>
             full_stop \<notin> set (strip (str '' YES'' @ [0x3000]))"
    by code_simp+
  have c: "lower (unicode example_env) (strip (str ''Show Tables'')) = str ''show tables''"
    and c': "ascii (strip (str ''Show Tables'')) \<or> full_stop \<notin> set (strip (str ''Show Tables''))"
    by code_simp+
  have d: "lower (unicode example_env) (strip (str ''SQL '')) = str ''sql''"
    and d': "ascii (strip (str ''SQL '')) \<or> full_stop \<notin> set (strip (str ''SQL ''))"
    by code_simp+
  have "chat example_env ([0xA0] @ str ''  HeLP '' @ [0x85]) initial_session [] =
      chat example_env (str ''help'') initial_session []"
    by (rule T [OF _ a a']) simp
  moreover have "chat example_env (str '' YES'' @ [0x3000]) example_awaiting [] =
      chat example_env (str ''yes'') example_awaiting []"
    by (rule T [OF _ b b']) simp
  moreover have "chat example_env (str ''Show Tables'') initial_session [] =
      chat example_env (str ''show tables'') initial_session []"
    by (rule T [OF _ c c']) simp
  moreover have "chat example_env (str ''SQL '') initial_session [] =
      chat example_env (str ''sql'') initial_session []"
    by (rule T [OF _ d d']) simp
  ultimately show ?thesis by blast
qed

end
